theory Spec2Isabelle
  imports Main "HOL-Library.Word"
begin

unbundle bit_operations_syntax

section \<open>The API key helper of incubator-devlake\<close>

text \<open>
  A shallow embedding of \<^verbatim>\<open>backend/helpers/apikeyhelper/apikeyhelper.go\<close>.
  The helper issues, rotates, looks up and deletes API keys. It stores only the
  HMAC-SHA256 digest of a key, hex encoded, and hands the plaintext out once.

  The helper's own functions are translated line by line. What they call in the Go
  standard library (\<^verbatim>\<open>crypto/sha256\<close>, \<^verbatim>\<open>crypto/hmac\<close>, \<^verbatim>\<open>fmt\<close>) is written out
  after its published definition; \<^verbatim>\<open>regexp.Compile\<close> is a parameter. The persistence
  layer (\<^verbatim>\<open>dal\<close>), the random letter generator (\<^verbatim>\<open>utils.RandLetterBytes\<close>) and the
  record type (\<^verbatim>\<open>models.ApiKey\<close>) belong to the repository but not to this file; they
  are modelled from the specification's interface section.
\<close>

subsection \<open>SHA-256 (FIPS 180-4), as \<^verbatim>\<open>crypto/sha256\<close> computes it\<close>

type_synonym byte = "8 word"
type_synonym u32 = "32 word"

text \<open>A Go string is a sequence of bytes; \<^verbatim>\<open>[]byte(s)\<close> reads them.\<close>

definition bytes_of :: "string \<Rightarrow> byte list" where
  "bytes_of s = map of_char s"

definition K256 :: "u32 list" where
  "K256 = [
    0x428A2F98, 0x71374491, 0xB5C0FBCF, 0xE9B5DBA5, 0x3956C25B, 0x59F111F1, 0x923F82A4, 0xAB1C5ED5,
    0xD807AA98, 0x12835B01, 0x243185BE, 0x550C7DC3, 0x72BE5D74, 0x80DEB1FE, 0x9BDC06A7, 0xC19BF174,
    0xE49B69C1, 0xEFBE4786, 0x0FC19DC6, 0x240CA1CC, 0x2DE92C6F, 0x4A7484AA, 0x5CB0A9DC, 0x76F988DA,
    0x983E5152, 0xA831C66D, 0xB00327C8, 0xBF597FC7, 0xC6E00BF3, 0xD5A79147, 0x06CA6351, 0x14292967,
    0x27B70A85, 0x2E1B2138, 0x4D2C6DFC, 0x53380D13, 0x650A7354, 0x766A0ABB, 0x81C2C92E, 0x92722C85,
    0xA2BFE8A1, 0xA81A664B, 0xC24B8B70, 0xC76C51A3, 0xD192E819, 0xD6990624, 0xF40E3585, 0x106AA070,
    0x19A4C116, 0x1E376C08, 0x2748774C, 0x34B0BCB5, 0x391C0CB3, 0x4ED8AA4A, 0x5B9CCA4F, 0x682E6FF3,
    0x748F82EE, 0x78A5636F, 0x84C87814, 0x8CC70208, 0x90BEFFFA, 0xA4506CEB, 0xBEF9A3F7, 0xC67178F2]"

definition init256 :: "u32 list" where
  "init256 = [0x6A09E667, 0xBB67AE85, 0x3C6EF372, 0xA54FF53A,
              0x510E527F, 0x9B05688C, 0x1F83D9AB, 0x5BE0CD19]"

definition rotr :: "nat \<Rightarrow> u32 \<Rightarrow> u32" where
  "rotr n x = (drop_bit n x) OR (push_bit (32 - n) x)"

definition be32 :: "byte list \<Rightarrow> u32" where
  "be32 bs = foldl (\<lambda>acc b. push_bit 8 acc OR ucast b) 0 bs"

fun words_of :: "byte list \<Rightarrow> u32 list" where
  "words_of (a # b # c # d # rest) = be32 [a, b, c, d] # words_of rest"
| "words_of _ = []"

definition bytes_of_u32 :: "u32 \<Rightarrow> byte list" where
  "bytes_of_u32 w = [ucast (drop_bit 24 w), ucast (drop_bit 16 w), ucast (drop_bit 8 w), ucast w]"

text \<open>The message length in bits, as a 64-bit big-endian number.\<close>

definition len_bytes :: "nat \<Rightarrow> byte list" where
  "len_bytes n = (let l = (word_of_nat (8 * n) :: 64 word) in
     map (\<lambda>i. ucast (drop_bit (8 * (7 - i)) l)) [0..<8])"

definition pad256 :: "byte list \<Rightarrow> byte list" where
  "pad256 m = m @ [0x80] @ replicate ((119 - length m mod 64) mod 64) 0 @ len_bytes (length m)"

text \<open>The message schedule: sixteen words of the block, extended by \<open>k\<close> more.\<close>

fun schedule :: "nat \<Rightarrow> u32 list \<Rightarrow> u32 list" where
  "schedule 0 w = w"
| "schedule (Suc k) w =
     (let n = length w;
          v1 = w ! (n - 2); v2 = w ! (n - 15);
          t1 = rotr 17 v1 XOR rotr 19 v1 XOR drop_bit 10 v1;
          t2 = rotr 7 v2 XOR rotr 18 v2 XOR drop_bit 3 v2
      in schedule k (w @ [t1 + w ! (n - 7) + t2 + w ! (n - 16)]))"

type_synonym regs = "u32 \<times> u32 \<times> u32 \<times> u32 \<times> u32 \<times> u32 \<times> u32 \<times> u32"

definition round256 :: "regs \<Rightarrow> u32 \<times> u32 \<Rightarrow> regs" where
  "round256 s kw = (case s of (a, b, c, d, e, f, g, h) \<Rightarrow>
     (let t1 = h + (rotr 6 e XOR rotr 11 e XOR rotr 25 e) + ((e AND f) XOR (NOT e AND g))
                 + fst kw + snd kw;
          t2 = (rotr 2 a XOR rotr 13 a XOR rotr 22 a) + ((a AND b) XOR (a AND c) XOR (b AND c))
      in (t1 + t2, a, b, c, d + t1, e, f, g)))"

definition block256 :: "u32 list \<Rightarrow> byte list \<Rightarrow> u32 list" where
  "block256 hs blk =
     (let w = schedule 48 (words_of blk);
          s0 = (hs ! 0, hs ! 1, hs ! 2, hs ! 3, hs ! 4, hs ! 5, hs ! 6, hs ! 7)
      in case foldl round256 s0 (zip K256 w) of (a, b, c, d, e, f, g, h) \<Rightarrow>
           map2 (+) hs [a, b, c, d, e, f, g, h])"

fun blocks256 :: "nat \<Rightarrow> u32 list \<Rightarrow> byte list \<Rightarrow> u32 list" where
  "blocks256 0 hs p = hs"
| "blocks256 (Suc k) hs p = blocks256 k (block256 hs (take 64 p)) (drop 64 p)"

definition sha256 :: "byte list \<Rightarrow> byte list" where
  "sha256 m = (let p = pad256 m in
     concat (map bytes_of_u32 (blocks256 (length p div 64) init256 p)))"

subsection \<open>HMAC, as \<^verbatim>\<open>crypto/hmac\<close> computes it\<close>

text \<open>
  \<^verbatim>\<open>hmac.New(sha256.New, key)\<close>: a key longer than the block size (64 bytes) is hashed
  first; the key is then copied into two zeroed blocks, which are xor-ed with \<^verbatim>\<open>0x36\<close>
  and \<^verbatim>\<open>0x5c\<close>. \<^verbatim>\<open>Write\<close> feeds the inner hash, \<^verbatim>\<open>Sum\<close> hashes the outer pad
  followed by the inner sum.
\<close>

definition block_key :: "byte list \<Rightarrow> byte list" where
  "block_key key =
     (let k = (if length key > 64 then sha256 key else key)
      in k @ replicate (64 - length k) 0)"

definition hmac_sha256 :: "byte list \<Rightarrow> byte list \<Rightarrow> byte list" where
  "hmac_sha256 key m =
     (let kp = block_key key;
          ipad = map (\<lambda>b. b XOR 0x36) kp;
          opad = map (\<lambda>b. b XOR 0x5c) kp
      in sha256 (opad @ sha256 (ipad @ m)))"

subsection \<open>Formatting verbs of \<^verbatim>\<open>fmt.Sprintf\<close>\<close>

definition hexdigit :: "nat \<Rightarrow> char" where
  "hexdigit n = ''0123456789abcdef'' ! n"

text \<open>\<^verbatim>\<open>%x\<close> on a byte slice: two lower-case hexadecimal digits per byte.\<close>

definition hex :: "byte list \<Rightarrow> string" where
  "hex bs = concat (map (\<lambda>b. [hexdigit (unat b div 16), hexdigit (unat b mod 16)]) bs)"

text \<open>\<^verbatim>\<open>%d\<close> on an unsigned integer: its decimal digits.\<close>

fun fmt_d :: "nat \<Rightarrow> string" where
  "fmt_d n = (if n < 10 then [hexdigit n] else fmt_d (n div 10) @ [hexdigit (n mod 10)])"

declare fmt_d.simps [simp del]

subsection \<open>Trimming, as \<^verbatim>\<open>strings.TrimSpace\<close> does it\<close>

text \<open>
  \<^verbatim>\<open>strings.TrimSpace\<close> removes the leading and the trailing white space, as Unicode
  defines it. These are the white-space code points in UTF-8: the six of ASCII, U+0085,
  U+00A0, U+1680, U+2000 to U+200A, U+2028, U+2029, U+202F, U+205F and U+3000.
\<close>

definition space_runes :: "string list" where
  "space_runes =
     [[CHR 0x09], [CHR 0x0A], [CHR 0x0B], [CHR 0x0C], [CHR 0x0D], [CHR 0x20],
      [CHR 0xC2, CHR 0x85], [CHR 0xC2, CHR 0xA0], [CHR 0xE1, CHR 0x9A, CHR 0x80],
      [CHR 0xE2, CHR 0x80, CHR 0x80], [CHR 0xE2, CHR 0x80, CHR 0x81], [CHR 0xE2, CHR 0x80, CHR 0x82],
      [CHR 0xE2, CHR 0x80, CHR 0x83], [CHR 0xE2, CHR 0x80, CHR 0x84], [CHR 0xE2, CHR 0x80, CHR 0x85],
      [CHR 0xE2, CHR 0x80, CHR 0x86], [CHR 0xE2, CHR 0x80, CHR 0x87], [CHR 0xE2, CHR 0x80, CHR 0x88],
      [CHR 0xE2, CHR 0x80, CHR 0x89], [CHR 0xE2, CHR 0x80, CHR 0x8A], [CHR 0xE2, CHR 0x80, CHR 0xA8],
      [CHR 0xE2, CHR 0x80, CHR 0xA9], [CHR 0xE2, CHR 0x80, CHR 0xAF], [CHR 0xE2, CHR 0x81, CHR 0x9F],
      [CHR 0xE3, CHR 0x80, CHR 0x80]]"

text \<open>The number of bytes of the white-space character a string starts or ends with;
  \<open>0\<close> when it starts or ends with none.\<close>

definition leading_space :: "string \<Rightarrow> nat" where
  "leading_space s = (case List.find (\<lambda>p. take (length p) s = p) space_runes of
                        None \<Rightarrow> 0 | Some p \<Rightarrow> length p)"

definition trailing_space :: "string \<Rightarrow> nat" where
  "trailing_space s = (case List.find (\<lambda>p. drop (length s - length p) s = p) space_runes of
                        None \<Rightarrow> 0 | Some p \<Rightarrow> length p)"

function TrimLeft :: "string \<Rightarrow> string" where
  "TrimLeft s = (if leading_space s = 0 then s else TrimLeft (drop (leading_space s) s))"
  by pat_completeness auto
termination
proof (relation "measure length")
  show "wf (measure length)" by simp
next
  fix s :: string
  assume "leading_space s \<noteq> 0"
  moreover have "leading_space s \<le> length s"
    by (auto simp: leading_space_def find_Some_iff split: option.splits)
       (metis length_take min.cobounded1)
  ultimately show "(drop (leading_space s) s, s) \<in> measure length" by simp
qed

function TrimRight :: "string \<Rightarrow> string" where
  "TrimRight s = (if trailing_space s = 0 then s else TrimRight (take (length s - trailing_space s) s))"
  by pat_completeness auto
termination
proof (relation "measure length")
  show "wf (measure length)" by simp
next
  fix s :: string
  assume "trailing_space s \<noteq> 0"
  moreover have "trailing_space s \<le> length s"
    by (auto simp: trailing_space_def find_Some_iff split: option.splits)
       (metis diff_le_self length_drop)
  ultimately show "(take (length s - trailing_space s) s, s) \<in> measure length" by simp
qed

definition TrimSpace :: "string \<Rightarrow> string" where
  "TrimSpace s = TrimRight (TrimLeft s)"

subsection \<open>Records and errors\<close>

text \<open>
  \<^verbatim>\<open>time.Time\<close> is an instant, here an integer; the zero time is \<open>0\<close>. Identifiers
  are \<^verbatim>\<open>uint64\<close> in the source; the helper does no arithmetic on them, so they are
  natural numbers here.
\<close>

type_synonym time = int

text \<open>Modelled from the spec: \<^verbatim>\<open>common.User\<close>, the acting identity, of which the helper
  reads the display name and the email address.\<close>

record User =
  user_Name :: string
  user_Email :: string

text \<open>Modelled from the spec: \<^verbatim>\<open>models.ApiKey\<close>, the credential record of the data
  model, under the field names the source reads and writes (those of the embedded
  \<^verbatim>\<open>common.Model\<close>, \<^verbatim>\<open>common.Creator\<close> and \<^verbatim>\<open>common.Updater\<close> among them).
  The field \<open>ApiKey\<close> holds the digest in a stored record.\<close>

record ApiKey =
  ID :: nat
  CreatedAt :: time
  UpdatedAt :: time
  Creator :: string
  CreatorEmail :: string
  Updater :: string
  UpdaterEmail :: string
  Name :: string
  ApiKey :: string
  ExpiredAt :: "time option"
  AllowedPath :: string
  Type :: string
  Extra :: string

text \<open>The zero value \<^verbatim>\<open>models.ApiKey{}\<close>.\<close>

definition zero_ApiKey :: ApiKey where
  "zero_ApiKey = \<lparr>ID = 0, CreatedAt = 0, UpdatedAt = 0, Creator = [], CreatorEmail = [],
     Updater = [], UpdaterEmail = [], Name = [], ApiKey = [], ExpiredAt = None,
     AllowedPath = [], Type = [], Extra = []\<rparr>"

text \<open>Modelled from the spec: the error types of \<^verbatim>\<open>core/errors\<close> that the helper
  uses (\<^verbatim>\<open>errors.Default\<close>, \<^verbatim>\<open>errors.BadInput\<close>, \<^verbatim>\<open>errors.NotFound\<close>), the
  faults its collaborators report, and the three shapes of error the helper returns: a
  new typed error (\<^verbatim>\<open>New\<close>), a typed wrapper around a collaborator's fault
  (\<^verbatim>\<open>Wrap\<close>), and a collaborator's error handed on as it is.\<close>

datatype err_type = Default | BadInput | NotFound

datatype fault =
    RegexpSyntax
  | EntropyFault
  | HashWriteFault
  | DalNotFound
  | DalDuplicateKey
  | DalOther

datatype error =
    New err_type string
  | Wrap err_type fault string
  | Unwrapped fault

subsection \<open>The collaborators\<close>

text \<open>Modelled from the spec: the world the helper runs in, which is the state of its
  collaborators: the table of API keys in the order \<^verbatim>\<open>First\<close> reads it, the storage
  faults still to come (one entry per call of the persistence layer, \<open>True\<close> for a call
  that fails; no entry, no fault), the reads of the random source still to come (\<open>None\<close>
  for a read that fails, otherwise the numbers read), and the clock that \<^verbatim>\<open>time.Now\<close>
  reads. The transaction \<^verbatim>\<open>tx\<close> and the handle of \<^verbatim>\<open>basicRes.GetDal()\<close> both stand
  for this one store.\<close>

record World =
  rows :: "ApiKey list"
  faults :: "bool list"
  entropy :: "(nat \<Rightarrow> nat) option list"
  clock :: time

definition time_Now :: "World \<Rightarrow> time" where
  "time_Now w = clock w"

text \<open>Modelled from the spec: \<^verbatim>\<open>dal.Clause\<close>, a filter on records; a query matches a
  record that passes every clause.\<close>

type_synonym Clause = "ApiKey \<Rightarrow> bool"

definition Where_id :: "nat \<Rightarrow> Clause" where
  "Where_id i = (\<lambda>r. ID r = i)"

definition Where_type :: "string \<Rightarrow> Clause" where
  "Where_type t = (\<lambda>r. Type r = t)"

definition Where_extra :: "string \<Rightarrow> Clause" where
  "Where_extra e = (\<lambda>r. Extra r = e)"

definition matches :: "Clause list \<Rightarrow> ApiKey \<Rightarrow> bool" where
  "matches cs r = list_all (\<lambda>c. c r) cs"

text \<open>Modelled from the spec: whether the next call of the persistence layer fails with
  \<^verbatim>\<open>OtherError\<close>, and the world once that call has been made.\<close>

definition next_fault :: "World \<Rightarrow> bool" where
  "next_fault w = (case faults w of [] \<Rightarrow> False | f # _ \<Rightarrow> f)"

definition tick :: "World \<Rightarrow> World" where
  "tick w = w\<lparr>faults := tl (faults w)\<rparr>"

text \<open>Modelled from the spec: \<^verbatim>\<open>IsErrorNotFound\<close> and \<^verbatim>\<open>IsDuplicationError\<close> of the
  persistence layer, which recognise its not-found and duplicate-key reports.\<close>

definition IsErrorNotFound :: "fault \<Rightarrow> bool" where
  "IsErrorNotFound e = (e = DalNotFound)"

definition IsDuplicationError :: "fault \<Rightarrow> bool" where
  "IsDuplicationError e = (e = DalDuplicateKey)"

text \<open>Modelled from the spec: the identifier the persistence layer assigns to a new
  record, one above the largest in the table.\<close>

definition fresh_id :: "ApiKey list \<Rightarrow> nat" where
  "fresh_id rs = Suc (foldr max (map ID rs) 0)"

text \<open>Modelled from the spec: \<^verbatim>\<open>Create(record) -> ok | DuplicateKeyError | OtherError\<close>
  of the persistence layer. It enforces the uniqueness of \<open>Name\<close>, assigns the
  identifier and writes it into the record it was given.\<close>

definition dal_Create :: "ApiKey \<Rightarrow> World \<Rightarrow> fault option \<times> ApiKey \<times> World" where
  "dal_Create r w =
     (if next_fault w then (Some DalOther, r, tick w)
      else if Name r \<in> set (map Name (rows w)) then (Some DalDuplicateKey, r, tick w)
      else (let r' = r\<lparr>ID := fresh_id (rows w)\<rparr>
            in (None, r', (tick w)\<lparr>rows := rows w @ [r']\<rparr>)))"

text \<open>Modelled from the spec: \<^verbatim>\<open>First(record, filters...) -> ok | NotFoundError |
  OtherError\<close> of the persistence layer: the first record that matches every filter.\<close>

definition dal_First :: "Clause list \<Rightarrow> World \<Rightarrow> (fault + ApiKey) \<times> World" where
  "dal_First cs w =
     (if next_fault w then (Inl DalOther, tick w)
      else (case List.find (matches cs) (rows w) of
              None \<Rightarrow> (Inl DalNotFound, tick w)
            | Some r \<Rightarrow> (Inr r, tick w)))"

text \<open>Modelled from the spec: \<^verbatim>\<open>Update(record) -> ok | OtherError\<close> of the persistence
  layer: the stored record with the identifier of the given one is replaced by it.\<close>

definition dal_Update :: "ApiKey \<Rightarrow> World \<Rightarrow> fault option \<times> World" where
  "dal_Update r w =
     (if next_fault w then (Some DalOther, tick w)
      else (None, (tick w)\<lparr>rows := map (\<lambda>x. if ID x = ID r then r else x) (rows w)\<rparr>))"

text \<open>Modelled from the spec: \<^verbatim>\<open>Delete(record-or-filter) -> ok | OtherError\<close> of the
  persistence layer, in its two forms: every record that matches the filters is removed,
  or the record with the identifier of the given one.\<close>

definition dal_Delete_where :: "Clause list \<Rightarrow> World \<Rightarrow> fault option \<times> World" where
  "dal_Delete_where cs w =
     (if next_fault w then (Some DalOther, tick w)
      else (None, (tick w)\<lparr>rows := filter (\<lambda>x. \<not> matches cs x) (rows w)\<rparr>))"

definition dal_Delete :: "ApiKey \<Rightarrow> World \<Rightarrow> fault option \<times> World" where
  "dal_Delete r w = dal_Delete_where [Where_id (ID r)] w"

definition letterBytes :: string where
  "letterBytes = ''abcdefghijklmnopqrstuvwxyzABCDEFGHIJKLMNOPQRSTUVWXYZ''"

text \<open>Modelled from the spec: \<^verbatim>\<open>utils.RandLetterBytes\<close>, the secret generator: \<open>n\<close>
  characters of the letters alphabet chosen by one read of the random source, or an
  error when the source fails.\<close>

definition RandLetterBytes :: "nat \<Rightarrow> World \<Rightarrow> (fault + string) \<times> World" where
  "RandLetterBytes n w =
     (case entropy w of
        [] \<Rightarrow> (Inl EntropyFault, w)
      | None # es \<Rightarrow> (Inl EntropyFault, w\<lparr>entropy := es\<rparr>)
      | Some f # es \<Rightarrow>
          (Inr (map (\<lambda>i. letterBytes ! (f i mod 52)) [0..<n]), w\<lparr>entropy := es\<rparr>))"

subsection \<open>The helper\<close>

definition apiKeyLen :: nat where
  "apiKeyLen = 128"

text \<open>\<^verbatim>\<open>ApiKeyHelper\<close>: of its fields only the secret decides a result; the logger, the
  configuration and the resources are left out, and the store is passed to each call.\<close>

record ApiKeyHelper =
  encryptionSecret :: string

text \<open>\<^verbatim>\<open>NewApiKeyHelper\<close>, given the configured value of \<^verbatim>\<open>ENCRYPTION_SECRET\<close>; it
  panics (\<open>None\<close>) when nothing is left of the value once the white space is trimmed.\<close>

definition NewApiKeyHelper :: "string \<Rightarrow> ApiKeyHelper option" where
  "NewApiKeyHelper configured =
     (let encryptionSecret = TrimSpace configured
      in if encryptionSecret = [] then None else Some \<lparr>encryptionSecret = encryptionSecret\<rparr>)"

text \<open>\<^verbatim>\<open>Write\<close> on a \<^verbatim>\<open>hash.Hash\<close>: it never returns an error.\<close>

definition hmac_Write :: "byte list \<Rightarrow> fault option" where
  "hmac_Write p = None"

definition DigestToken :: "ApiKeyHelper \<Rightarrow> string \<Rightarrow> error + string" where
  "DigestToken c token =
     (case hmac_Write (bytes_of token) of
        Some err \<Rightarrow> Inl (Wrap Default err ''hmac write token'')
      | None \<Rightarrow> Inr (hex (hmac_sha256 (bytes_of (encryptionSecret c)) (bytes_of token))))"

definition generateApiKey :: "ApiKeyHelper \<Rightarrow> World \<Rightarrow> (error + string \<times> string) \<times> World" where
  "generateApiKey c w =
     (case RandLetterBytes apiKeyLen w of
        (Inl randomLetterErr, w1) \<Rightarrow> (Inl (Wrap Default randomLetterErr ''random letters''), w1)
      | (Inr apiKey, w1) \<Rightarrow>
          (case DigestToken c apiKey of
             Inl err \<Rightarrow> (Inl err, w1)
           | Inr hashedApiKey \<Rightarrow> (Inr (apiKey, hashedApiKey), w1)))"

text \<open>\<^verbatim>\<open>Create\<close>; \<open>compiles\<close> says which patterns \<^verbatim>\<open>regexp.Compile\<close> accepts.\<close>

definition Create ::
  "(string \<Rightarrow> bool) \<Rightarrow> ApiKeyHelper \<Rightarrow> World \<Rightarrow> User option \<Rightarrow> string \<Rightarrow> time option \<Rightarrow>
   string \<Rightarrow> string \<Rightarrow> string \<Rightarrow> (error + ApiKey) \<times> World" where
  "Create compiles c tx user name expiredAt allowedPath apiKeyType extra =
     (if \<not> compiles allowedPath
      then (Inl (Wrap Default RegexpSyntax (''compile allowed path: '' @ allowedPath)), tx)
      else (case generateApiKey c tx of
              (Inl err, tx1) \<Rightarrow> (Inl err, tx1)
            | (Inr (apiKey, hashedApiKey), tx1) \<Rightarrow>
                (let now = time_Now tx1;
                     apiKeyRecord = zero_ApiKey\<lparr>CreatedAt := now, UpdatedAt := now,
                       Name := name, ApiKey := hashedApiKey, ExpiredAt := expiredAt,
                       AllowedPath := allowedPath, Type := apiKeyType, Extra := extra\<rparr>;
                     apiKeyRecord =
                       (case user of
                          None \<Rightarrow> apiKeyRecord
                        | Some u \<Rightarrow> apiKeyRecord\<lparr>Creator := user_Name u,
                            CreatorEmail := user_Email u, Updater := user_Name u,
                            UpdaterEmail := user_Email u\<rparr>)
                 in (case dal_Create apiKeyRecord tx1 of
                       (Some err, _, tx2) \<Rightarrow>
                         (if IsDuplicationError err
                          then (Inl (New BadInput
                                  (''An api key with name ['' @ name @ ''] has already exists'')), tx2)
                          else (Inl (Wrap Default err ''error creating DB api key''), tx2))
                     | (None, stored, tx2) \<Rightarrow> (Inr (stored\<lparr>ApiKey := apiKey\<rparr>), tx2)))))"

text \<open>\<^verbatim>\<open>CreateForPlugin\<close>, with the arguments in the order the source passes them.\<close>

definition CreateForPlugin ::
  "(string \<Rightarrow> bool) \<Rightarrow> ApiKeyHelper \<Rightarrow> World \<Rightarrow> User option \<Rightarrow> string \<Rightarrow> string \<Rightarrow>
   string \<Rightarrow> string \<Rightarrow> (error + ApiKey) \<times> World" where
  "CreateForPlugin compiles c tx user name pluginName allowedPath extra =
     Create compiles c tx user name None (''plugin:'' @ pluginName) allowedPath extra"

definition getApiKeyById ::
  "ApiKeyHelper \<Rightarrow> World \<Rightarrow> nat \<Rightarrow> Clause list \<Rightarrow> (error + ApiKey) \<times> World" where
  "getApiKeyById c tx i additionalClauses =
     (case dal_First (Where_id i # additionalClauses) tx of
        (Inl err, tx1) \<Rightarrow>
          (if IsErrorNotFound err
           then (Inl (Wrap NotFound err (''could not find api key id['' @ fmt_d i @ ''] in DB'')), tx1)
           else (Inl (Wrap Default err ''error getting api key from DB''), tx1))
      | (Inr apiKey, tx1) \<Rightarrow> (Inr apiKey, tx1))"

text \<open>\<^verbatim>\<open>GetApiKey\<close> returns a record and an error: on failure the record is the zero
  value and the error is the persistence layer's own.\<close>

definition GetApiKey ::
  "ApiKeyHelper \<Rightarrow> World \<Rightarrow> Clause list \<Rightarrow> (ApiKey \<times> error option) \<times> World" where
  "GetApiKey c tx additionalClauses =
     (case dal_First additionalClauses tx of
        (Inl err, tx1) \<Rightarrow> ((zero_ApiKey, Some (Unwrapped err)), tx1)
      | (Inr apiKey, tx1) \<Rightarrow> ((apiKey, None), tx1))"

text \<open>\<^verbatim>\<open>Put\<close>, the rotation of a key.\<close>

definition Put :: "ApiKeyHelper \<Rightarrow> World \<Rightarrow> User option \<Rightarrow> nat \<Rightarrow> (error + ApiKey) \<times> World" where
  "Put c db user i =
     (case getApiKeyById c db i [] of
        (Inl err, db1) \<Rightarrow> (Inl err, db1)
      | (Inr apiKey, db1) \<Rightarrow>
          (case generateApiKey c db1 of
             (Inl err, db2) \<Rightarrow> (Inl err, db2)
           | (Inr (apiKeyStr, hashApiKey), db2) \<Rightarrow>
               (let apiKey = apiKey\<lparr>ApiKey := hashApiKey, UpdatedAt := time_Now db2\<rparr>;
                    apiKey =
                      (case user of
                         None \<Rightarrow> apiKey
                       | Some u \<Rightarrow> apiKey\<lparr>Updater := user_Name u, UpdaterEmail := user_Email u\<rparr>)
                in (case dal_Update apiKey db2 of
                      (Some err, db3) \<Rightarrow> (Inl (Wrap Default err ''error deleting api key''), db3)
                    | (None, db3) \<Rightarrow> (Inr (apiKey\<lparr>ApiKey := apiKeyStr\<rparr>), db3)))))"

definition Delete :: "ApiKeyHelper \<Rightarrow> World \<Rightarrow> nat \<Rightarrow> error option \<times> World" where
  "Delete c db i =
     (case getApiKeyById c db i [] of
        (Inl err, db1) \<Rightarrow> (Some err, db1)
      | (Inr _, db1) \<Rightarrow>
          (case dal_Delete_where [Where_id i] db1 of
             (Some err, db2) \<Rightarrow> (Some (Wrap Default err ''error deleting api key''), db2)
           | (None, db2) \<Rightarrow> (None, db2)))"

text \<open>The clauses \<^verbatim>\<open>DeleteForPlugin\<close> builds: one for each argument that is not empty.\<close>

definition plugin_clauses :: "string \<Rightarrow> string \<Rightarrow> Clause list" where
  "plugin_clauses pluginName extra =
     (if pluginName \<noteq> [] then [Where_type (''plugin:'' @ pluginName)] else []) @
     (if extra \<noteq> [] then [Where_extra extra] else [])"

definition DeleteForPlugin :: "ApiKeyHelper \<Rightarrow> World \<Rightarrow> string \<Rightarrow> string \<Rightarrow> error option \<times> World" where
  "DeleteForPlugin c tx pluginName extra =
     (case dal_First (plugin_clauses pluginName extra) tx of
        (Inl err, tx1) \<Rightarrow>
          (if IsErrorNotFound err then (None, tx1) else (Some (Unwrapped err), tx1))
      | (Inr apiKey, tx1) \<Rightarrow>
          (case dal_Delete apiKey tx1 of
             (Some err, tx2) \<Rightarrow> (Some (Unwrapped err), tx2)
           | (None, tx2) \<Rightarrow> (None, tx2)))"

subsection \<open>Notions used to state the results\<close>

text \<open>The plaintext that \<^verbatim>\<open>generateApiKey\<close> draws from one read of the random source,
  the digest \<^verbatim>\<open>DigestToken\<close> computes, and the record \<^verbatim>\<open>Create\<close> builds, with the
  identifier the persistence layer assigns.\<close>

definition plaintext_of :: "(nat \<Rightarrow> nat) \<Rightarrow> string" where
  "plaintext_of f = map (\<lambda>i. letterBytes ! (f i mod 52)) [0..<apiKeyLen]"

definition digest_of :: "ApiKeyHelper \<Rightarrow> string \<Rightarrow> string" where
  "digest_of c t = hex (hmac_sha256 (bytes_of (encryptionSecret c)) (bytes_of t))"

definition created_record ::
  "World \<Rightarrow> User option \<Rightarrow> string \<Rightarrow> time option \<Rightarrow> string \<Rightarrow> string \<Rightarrow> string \<Rightarrow> string \<Rightarrow> ApiKey" where
  "created_record tx user name expiredAt allowedPath apiKeyType extra key =
     \<lparr>ID = fresh_id (rows tx), CreatedAt = clock tx, UpdatedAt = clock tx,
         Creator = (case user of None \<Rightarrow> [] | Some u \<Rightarrow> user_Name u),
         CreatorEmail = (case user of None \<Rightarrow> [] | Some u \<Rightarrow> user_Email u),
         Updater = (case user of None \<Rightarrow> [] | Some u \<Rightarrow> user_Name u),
         UpdaterEmail = (case user of None \<Rightarrow> [] | Some u \<Rightarrow> user_Email u),
         Name = name, ApiKey = key,
         ExpiredAt = expiredAt, AllowedPath = allowedPath, Type = apiKeyType, Extra = extra\<rparr>"

text \<open>A helper, a pattern check and a store for the examples.\<close>

definition ex_helper :: ApiKeyHelper where
  "ex_helper = \<lparr>encryptionSecret = ''s3cret''\<rparr>"

definition ex_compiles :: "string \<Rightarrow> bool" where
  "ex_compiles p = (p \<noteq> ''('')"

definition ex_key :: "nat \<Rightarrow> string \<Rightarrow> string \<Rightarrow> string \<Rightarrow> ApiKey" where
  "ex_key i n t e = zero_ApiKey\<lparr>ID := i, Name := n, ApiKey := replicate 64 (CHR ''0''),
     AllowedPath := ''.*'', Type := t, Extra := e\<rparr>"

definition ex_rows :: "ApiKey list" where
  "ex_rows = [ex_key 1 ''ci'' ''user'' [], ex_key 2 ''hook-a'' ''plugin:webhook'' ''7'',
              ex_key 3 ''hook-b'' ''plugin:webhook'' ''7'']"

definition ex_world :: World where
  "ex_world = \<lparr>rows = ex_rows, faults = [], entropy = [Some (\<lambda>i. i), Some (\<lambda>i. 2 * i)], clock = 1700000000\<rparr>"

text \<open>A read of the random source that delivers the same number throughout, an empty store
  whose random source delivers it twice, an acting identity, and the example store with a
  storage fault on its next call.\<close>

definition stuck :: "nat \<Rightarrow> nat" where
  "stuck i = 0"

definition ex_stuck :: World where
  "ex_stuck = \<lparr>rows = [], faults = [], entropy = [Some stuck, Some stuck], clock = 1700000000\<rparr>"

definition ex_user :: User where
  "ex_user = \<lparr>user_Name = ''alice'', user_Email = ''alice@example.org''\<rparr>"

definition ex_faulty :: World where
  "ex_faulty = ex_world\<lparr>faults := [True]\<rparr>"

section \<open>Properties of the collaborators\<close>

subsection \<open>The digest\<close>

lemma length_block256: "length hs = 8 \<Longrightarrow> length (block256 hs blk) = 8"
  by (simp add: block256_def Let_def split: prod.splits)

lemma length_blocks256: "length hs = 8 \<Longrightarrow> length (blocks256 k hs p) = 8"
  by (induction k hs p rule: blocks256.induct) (simp_all add: length_block256)

lemma length_concat_bytes: "length (concat (map bytes_of_u32 ws)) = 4 * length ws"
  by (induction ws) (simp_all add: bytes_of_u32_def)

lemma length_sha256: "length (sha256 m) = 32"
  by (simp add: sha256_def Let_def length_concat_bytes length_blocks256 init256_def)

lemma length_hex: "length (hex bs) = 2 * length bs"
  by (induction bs) (simp_all add: hex_def)

lemma length_digest: "length (hex (hmac_sha256 k m)) = 64"
  by (simp add: length_hex hmac_sha256_def Let_def length_sha256)

lemma DigestToken_eq:
  "DigestToken c token = Inr (hex (hmac_sha256 (bytes_of (encryptionSecret c)) (bytes_of token)))"
  by (simp add: DigestToken_def hmac_Write_def)

lemma DigestToken_length: "DigestToken c t = Inr d \<Longrightarrow> length d = 64"
  by (auto simp: DigestToken_eq length_digest)

lemma hmac_block_key:
  "block_key k1 = block_key k2 \<Longrightarrow> hmac_sha256 k1 m = hmac_sha256 k2 m"
  by (simp add: hmac_sha256_def)

lemma block_key_trailing_zero:
  "block_key (bytes_of ''a'') = block_key (bytes_of [CHR ''a'', CHR 0x00])"
  by (simp add: block_key_def bytes_of_def replicate_append_same numeral_eq_Suc)

subsection \<open>The random source\<close>

lemma RandLetterBytes_length: "RandLetterBytes n w = (Inr s, w') \<Longrightarrow> length s = n"
  by (auto simp: RandLetterBytes_def split: list.splits option.splits)

lemma length_plaintext_of: "length (plaintext_of f) = 128"
  by (simp add: plaintext_of_def apiKeyLen_def)

lemma plaintext_neq_digest: "plaintext_of f \<noteq> digest_of c t"
proof
  assume "plaintext_of f = digest_of c t"
  then have "length (plaintext_of f) = length (digest_of c t)" by simp
  then show False by (simp add: length_plaintext_of digest_of_def length_digest)
qed

lemma generateApiKey_ok:
  "entropy w = Some f # es \<Longrightarrow>
   generateApiKey c w = (Inr (plaintext_of f, digest_of c (plaintext_of f)), w\<lparr>entropy := es\<rparr>)"
  by (simp add: generateApiKey_def RandLetterBytes_def DigestToken_eq plaintext_of_def digest_of_def)

lemma generateApiKey_cases:
  "(\<exists>f es. entropy w = Some f # es \<and>
      generateApiKey c w = (Inr (plaintext_of f, digest_of c (plaintext_of f)), w\<lparr>entropy := es\<rparr>)) \<or>
   (\<exists>w'. generateApiKey c w = (Inl (Wrap Default EntropyFault ''random letters''), w') \<and> rows w' = rows w)"
  by (auto simp: generateApiKey_def RandLetterBytes_def DigestToken_eq plaintext_of_def digest_of_def
      split: list.splits option.splits)

subsection \<open>The persistence layer\<close>

lemma tick_simps [simp]:
  "rows (tick w) = rows w" "entropy (tick w) = entropy w" "clock (tick w) = clock w"
  "faults (tick w) = tl (faults w)"
  by (simp_all add: tick_def)

lemma next_fault_entropy [simp]: "next_fault (w\<lparr>entropy := es\<rparr>) = next_fault w"
  by (simp add: next_fault_def)

lemma next_fault_rows [simp]: "next_fault (w\<lparr>rows := rs\<rparr>) = next_fault w"
  by (simp add: next_fault_def)

lemma tick_entropy: "tick (w\<lparr>entropy := es\<rparr>) = (tick w)\<lparr>entropy := es\<rparr>"
  by (simp add: tick_def)

lemma fresh_id_gt: "r \<in> set rs \<Longrightarrow> ID r < fresh_id rs"
  by (induction rs) (auto simp: fresh_id_def)

lemma matches_simps [simp]:
  "matches [] r" "matches (c # cs) r \<longleftrightarrow> c r \<and> matches cs r"
  by (simp_all add: matches_def)

lemma find_first:
  "P r \<Longrightarrow> \<forall>x \<in> set pre. \<not> P x \<Longrightarrow> List.find P (pre @ r # post) = Some r"
  by (induction pre) simp_all

lemma find_split:
  "List.find P xs = Some r \<Longrightarrow> \<exists>pre post. xs = pre @ r # post \<and> P r \<and> (\<forall>x \<in> set pre. \<not> P x)"
proof (induction xs)
  case Nil then show ?case by simp
next
  case (Cons a xs)
  show ?case
  proof (cases "P a")
    case True
    with Cons.prems have "a = r" by simp
    with True show ?thesis by (intro exI[of _ "[]"] exI[of _ xs]) simp
  next
    case False
    with Cons obtain pre post where "xs = pre @ r # post" "P r" "\<forall>x \<in> set pre. \<not> P x" by auto
    with False show ?thesis by (intro exI[of _ "a # pre"] exI[of _ post]) simp
  qed
qed

lemma dal_First_fault: "next_fault w \<Longrightarrow> dal_First cs w = (Inl DalOther, tick w)"
  by (simp add: dal_First_def)

lemma dal_First_none:
  "\<not> next_fault w \<Longrightarrow> \<forall>r \<in> set (rows w). \<not> matches cs r \<Longrightarrow>
   dal_First cs w = (Inl DalNotFound, tick w)"
  by (simp add: dal_First_def find_None_iff[THEN iffD2])

lemma dal_First_some:
  "\<not> next_fault w \<Longrightarrow> rows w = pre @ r # post \<Longrightarrow> matches cs r \<Longrightarrow>
   \<forall>x \<in> set pre. \<not> matches cs x \<Longrightarrow> dal_First cs w = (Inr r, tick w)"
  by (simp add: dal_First_def find_first)

lemma dal_First_cases:
  "(next_fault w \<and> dal_First cs w = (Inl DalOther, tick w)) \<or>
   (\<not> next_fault w \<and> (\<forall>r \<in> set (rows w). \<not> matches cs r) \<and> dal_First cs w = (Inl DalNotFound, tick w)) \<or>
   (\<not> next_fault w \<and> (\<exists>pre r post. rows w = pre @ r # post \<and> matches cs r \<and>
       (\<forall>x \<in> set pre. \<not> matches cs x) \<and> dal_First cs w = (Inr r, tick w)))"
proof (cases "next_fault w")
  case True then show ?thesis by (simp add: dal_First_fault)
next
  case nf: False
  show ?thesis
  proof (cases "List.find (matches cs) (rows w)")
    case None
    then have "\<forall>r \<in> set (rows w). \<not> matches cs r" by (simp add: find_None_iff)
    with nf show ?thesis by (simp add: dal_First_none)
  next
    case (Some r)
    from find_split[OF this] obtain pre post where
      "rows w = pre @ r # post" "matches cs r" "\<forall>x \<in> set pre. \<not> matches cs x" by blast
    with nf dal_First_some[OF nf this] show ?thesis by blast
  qed
qed

lemma dal_Update_ok:
  "\<not> next_fault w \<Longrightarrow>
   dal_Update r w = (None, (tick w)\<lparr>rows := map (\<lambda>x. if ID x = ID r then r else x) (rows w)\<rparr>)"
  by (simp add: dal_Update_def)

lemma filter_not_id_distinct:
  "distinct (map ID (pre @ r # post)) \<Longrightarrow>
   filter (\<lambda>x. ID x \<noteq> ID r) (pre @ r # post) = pre @ post"
proof -
  assume d: "distinct (map ID (pre @ r # post))"
  then have "\<forall>x \<in> set pre. ID x \<noteq> ID r" "\<forall>x \<in> set post. ID x \<noteq> ID r"
    by (fastforce simp: image_iff)+
  then show ?thesis by (simp add: filter_id_conv[THEN iffD2])
qed

section \<open>The helper, call by call\<close>

lemma created_record_simps [simp]:
  "ID (created_record tx u n e a t x k) = fresh_id (rows tx)"
  "Name (created_record tx u n e a t x k) = n"
  "ApiKey (created_record tx u n e a t x k) = k"
  "ExpiredAt (created_record tx u n e a t x k) = e"
  "AllowedPath (created_record tx u n e a t x k) = a"
  "Type (created_record tx u n e a t x k) = t"
  "Extra (created_record tx u n e a t x k) = x"
  "(created_record tx u n e a t x k)\<lparr>ApiKey := k'\<rparr> = created_record tx u n e a t x k'"
  by (simp_all add: created_record_def)

lemma Create_ok:
  assumes "compiles allowedPath" "entropy tx = Some f # es" "\<not> next_fault tx"
    "name \<notin> set (map Name (rows tx))"
  shows "Create compiles c tx user name expiredAt allowedPath apiKeyType extra =
    (Inr (created_record tx user name expiredAt allowedPath apiKeyType extra (plaintext_of f)),
     (tick tx)\<lparr>entropy := es, rows := rows tx @
        [created_record tx user name expiredAt allowedPath apiKeyType extra (digest_of c (plaintext_of f))]\<rparr>)"
  using assms
  by (cases user)
     (simp_all add: Create_def generateApiKey_ok dal_Create_def Let_def time_Now_def zero_ApiKey_def
        created_record_def tick_entropy)

lemma Create_duplicate:
  assumes "compiles allowedPath" "entropy tx = Some f # es" "\<not> next_fault tx"
    "name \<in> set (map Name (rows tx))"
  shows "Create compiles c tx user name expiredAt allowedPath apiKeyType extra =
    (Inl (New BadInput (''An api key with name ['' @ name @ ''] has already exists'')),
     (tick tx)\<lparr>entropy := es\<rparr>)"
  using assms
  by (cases user)
     (simp_all add: Create_def generateApiKey_ok dal_Create_def Let_def time_Now_def zero_ApiKey_def
        IsDuplicationError_def tick_entropy)

lemma Create_fault:
  assumes "compiles allowedPath" "entropy tx = Some f # es" "next_fault tx"
  shows "Create compiles c tx user name expiredAt allowedPath apiKeyType extra =
    (Inl (Wrap Default DalOther ''error creating DB api key''), (tick tx)\<lparr>entropy := es\<rparr>)"
  using assms
  by (cases user)
     (simp_all add: Create_def generateApiKey_ok dal_Create_def Let_def time_Now_def zero_ApiKey_def
        IsDuplicationError_def tick_entropy)

lemma Create_entropy_fail:
  assumes "compiles allowedPath" "\<forall>f es. entropy tx \<noteq> Some f # es"
  shows "fst (Create compiles c tx user name expiredAt allowedPath apiKeyType extra) =
    Inl (Wrap Default EntropyFault ''random letters'')"
  using assms generateApiKey_cases[of tx c]
  by (auto simp: Create_def)

lemma Create_Inr_D:
  assumes "Create compiles c tx user name expiredAt allowedPath apiKeyType extra = (Inr r, tx')"
  shows "\<exists>f es. compiles allowedPath \<and> entropy tx = Some f # es \<and> \<not> next_fault tx \<and>
      name \<notin> set (map Name (rows tx)) \<and>
      r = created_record tx user name expiredAt allowedPath apiKeyType extra (plaintext_of f) \<and>
      tx' = (tick tx)\<lparr>entropy := es, rows := rows tx @
        [created_record tx user name expiredAt allowedPath apiKeyType extra (digest_of c (plaintext_of f))]\<rparr>"
proof -
  have c: "compiles allowedPath"
    using assms by (auto simp: Create_def split: if_splits)
  have "\<exists>f es. entropy tx = Some f # es"
  proof (rule ccontr)
    assume "\<not> ?thesis"
    then have "fst (Create compiles c tx user name expiredAt allowedPath apiKeyType extra) =
      Inl (Wrap Default EntropyFault ''random letters'')"
      using c Create_entropy_fail by blast
    with assms show False by simp
  qed
  then obtain f es where e: "entropy tx = Some f # es" by blast
  have nf: "\<not> next_fault tx"
    using assms Create_fault[where compiles = compiles and allowedPath = allowedPath, OF c e]
    by auto
  have fresh: "name \<notin> set (map Name (rows tx))"
    using assms Create_duplicate[where compiles = compiles and allowedPath = allowedPath, OF c e nf]
    by auto
  show ?thesis
    using assms Create_ok[where compiles = compiles and allowedPath = allowedPath, OF c e nf fresh]
      c e nf fresh by auto
qed

lemma CreateForPlugin_Inr_D:
  assumes "CreateForPlugin compiles c tx user name pluginName allowedPath extra = (Inr r, tx')"
  shows "Type r = allowedPath \<and> AllowedPath r = ''plugin:'' @ pluginName \<and> ExpiredAt r = None \<and>
         compiles (''plugin:'' @ pluginName)"
  using Create_Inr_D[OF assms[unfolded CreateForPlugin_def]] by auto

lemma getApiKeyById_fault:
  "next_fault w \<Longrightarrow> getApiKeyById c w i cs =
     (Inl (Wrap Default DalOther ''error getting api key from DB''), tick w)"
  by (simp add: getApiKeyById_def dal_First_fault IsErrorNotFound_def)

lemma getApiKeyById_none:
  "\<not> next_fault w \<Longrightarrow> \<forall>r \<in> set (rows w). \<not> (ID r = i \<and> matches cs r) \<Longrightarrow>
   getApiKeyById c w i cs =
     (Inl (Wrap NotFound DalNotFound (''could not find api key id['' @ fmt_d i @ ''] in DB'')), tick w)"
  by (simp add: getApiKeyById_def dal_First_none Where_id_def IsErrorNotFound_def)

lemma getApiKeyById_some:
  "\<not> next_fault w \<Longrightarrow> rows w = pre @ r # post \<Longrightarrow> ID r = i \<Longrightarrow> matches cs r \<Longrightarrow>
   \<forall>x \<in> set pre. \<not> (ID x = i \<and> matches cs x) \<Longrightarrow> getApiKeyById c w i cs = (Inr r, tick w)"
  by (simp add: getApiKeyById_def dal_First_some[where pre = pre and post = post] Where_id_def)

lemma getApiKeyById_outcomes:
  "(\<exists>pre r post. fst (getApiKeyById c tx i cs) = Inr r \<and> \<not> next_fault tx \<and>
       rows tx = pre @ r # post \<and> ID r = i \<and> matches cs r \<and>
       (\<forall>x \<in> set pre. \<not> (ID x = i \<and> matches cs x)))
   \<or> (fst (getApiKeyById c tx i cs) =
         Inl (Wrap NotFound DalNotFound (''could not find api key id['' @ fmt_d i @ ''] in DB'')) \<and>
       \<not> next_fault tx \<and> (\<forall>r \<in> set (rows tx). \<not> (ID r = i \<and> matches cs r)))
   \<or> (fst (getApiKeyById c tx i cs) = Inl (Wrap Default DalOther ''error getting api key from DB'') \<and>
       next_fault tx)"
  using dal_First_cases[of tx "Where_id i # cs"]
  by (elim disjE conjE exE)
     (auto simp: getApiKeyById_def IsErrorNotFound_def Where_id_def)

lemma GetApiKey_fault:
  "next_fault w \<Longrightarrow> GetApiKey c w cs = ((zero_ApiKey, Some (Unwrapped DalOther)), tick w)"
  by (simp add: GetApiKey_def dal_First_fault)

lemma GetApiKey_none:
  "\<not> next_fault w \<Longrightarrow> \<forall>r \<in> set (rows w). \<not> matches cs r \<Longrightarrow>
   GetApiKey c w cs = ((zero_ApiKey, Some (Unwrapped DalNotFound)), tick w)"
  by (simp add: GetApiKey_def dal_First_none)

lemma GetApiKey_some:
  "\<not> next_fault w \<Longrightarrow> rows w = pre @ r # post \<Longrightarrow> matches cs r \<Longrightarrow>
   \<forall>x \<in> set pre. \<not> matches cs x \<Longrightarrow> GetApiKey c w cs = ((r, None), tick w)"
  by (simp add: GetApiKey_def dal_First_some[where pre = pre and post = post])

lemma GetApiKey_outcomes:
  "(\<exists>pre r post. fst (GetApiKey c tx cs) = (r, None) \<and> \<not> next_fault tx \<and>
       rows tx = pre @ r # post \<and> matches cs r \<and> (\<forall>x \<in> set pre. \<not> matches cs x))
   \<or> (fst (GetApiKey c tx cs) = (zero_ApiKey, Some (Unwrapped DalNotFound)) \<and>
       \<not> next_fault tx \<and> (\<forall>r \<in> set (rows tx). \<not> matches cs r))
   \<or> (fst (GetApiKey c tx cs) = (zero_ApiKey, Some (Unwrapped DalOther)) \<and> next_fault tx)"
  using dal_First_cases[of tx cs]
  by (elim disjE conjE exE) (auto simp: GetApiKey_def)

lemma lookups_world:
  "snd (getApiKeyById c tx i cs) = tick tx" "snd (GetApiKey c tx cs') = tick tx"
  using dal_First_cases[of tx "Where_id i # cs"] dal_First_cases[of tx cs']
  by (auto simp: getApiKeyById_def GetApiKey_def)

lemma Put_absent:
  "\<not> next_fault db \<Longrightarrow> \<forall>r \<in> set (rows db). ID r \<noteq> i \<Longrightarrow>
   Put c db user i =
     (Inl (Wrap NotFound DalNotFound (''could not find api key id['' @ fmt_d i @ ''] in DB'')), tick db)"
  by (simp add: Put_def getApiKeyById_none)

lemma Put_ok:
  assumes "\<not> next_fault db" and "\<not> next_fault (tick db)"
    and "rows db = pre @ old # post" and "ID old = i" and "\<forall>x \<in> set pre. ID x \<noteq> i"
    and "entropy db = Some f # es"
  shows "Put c db user i =
    (Inr (old\<lparr>ApiKey := plaintext_of f, UpdatedAt := clock db,
              Updater := (case user of None \<Rightarrow> Updater old | Some u \<Rightarrow> user_Name u),
              UpdaterEmail := (case user of None \<Rightarrow> UpdaterEmail old | Some u \<Rightarrow> user_Email u)\<rparr>),
     (tick (tick db))\<lparr>entropy := es,
        rows := map (\<lambda>x. if ID x = i
          then old\<lparr>ApiKey := digest_of c (plaintext_of f), UpdatedAt := clock db,
              Updater := (case user of None \<Rightarrow> Updater old | Some u \<Rightarrow> user_Name u),
              UpdaterEmail := (case user of None \<Rightarrow> UpdaterEmail old | Some u \<Rightarrow> user_Email u)\<rparr>
          else x) (rows db)\<rparr>)"
proof -
  have g: "getApiKeyById c db i [] = (Inr old, tick db)"
    using assms(1,3,4) _ _ by (rule getApiKeyById_some) (use assms(5) in simp_all)
  have e: "entropy (tick db) = Some f # es" using assms(6) by simp
  show ?thesis
    using assms(2,4)
    by (cases user)
       (simp_all add: Put_def g generateApiKey_ok[OF e] Let_def time_Now_def dal_Update_ok tick_entropy)
qed

lemma Delete_absent:
  "\<not> next_fault db \<Longrightarrow> \<forall>r \<in> set (rows db). ID r \<noteq> i \<Longrightarrow>
   Delete c db i =
     (Some (Wrap NotFound DalNotFound (''could not find api key id['' @ fmt_d i @ ''] in DB'')), tick db)"
  by (simp add: Delete_def getApiKeyById_none)

lemma matches_plugin_clauses:
  "matches (plugin_clauses p e) r \<longleftrightarrow>
     (p \<noteq> [] \<longrightarrow> Type r = ''plugin:'' @ p) \<and> (e \<noteq> [] \<longrightarrow> Extra r = e)"
  by (simp add: plugin_clauses_def Where_type_def Where_extra_def)

lemma DeleteForPlugin_none:
  "\<not> next_fault tx \<Longrightarrow> \<forall>r \<in> set (rows tx). \<not> matches (plugin_clauses p e) r \<Longrightarrow>
   DeleteForPlugin c tx p e = (None, tick tx)"
  by (simp add: DeleteForPlugin_def dal_First_none IsErrorNotFound_def)

lemma DeleteForPlugin_first:
  assumes "\<not> next_fault tx" "\<not> next_fault (tick tx)"
    "rows tx = pre @ r # post" "matches (plugin_clauses p e) r"
    "\<forall>x \<in> set pre. \<not> matches (plugin_clauses p e) x"
  shows "DeleteForPlugin c tx p e =
    (None, (tick (tick tx))\<lparr>rows := filter (\<lambda>x. ID x \<noteq> ID r) (rows tx)\<rparr>)"
  using assms
  by (simp add: DeleteForPlugin_def dal_First_some[where pre = pre and post = post]
      dal_Delete_def dal_Delete_where_def Where_id_def)

section \<open>Identifiers stay unique\<close>

text \<open>Every call of the helper keeps the identifiers of the stored records distinct.\<close>

lemma Create_rows:
  "rows (snd (Create compiles c tx user name expiredAt allowedPath apiKeyType extra)) = rows tx \<or>
   (\<exists>r. rows (snd (Create compiles c tx user name expiredAt allowedPath apiKeyType extra)) = rows tx @ [r] \<and>
        ID r = fresh_id (rows tx))"
proof (cases "compiles allowedPath")
  case False
  then show ?thesis by (simp add: Create_def)
next
  case c: True
  from generateApiKey_cases[of tx c] show ?thesis
  proof (elim disjE exE conjE)
    fix f es
    assume e: "entropy tx = Some f # es"
    show ?thesis
    proof (cases "next_fault tx")
      case True
      with c e show ?thesis
        by (simp add: Create_fault[where compiles = compiles and allowedPath = allowedPath])
    next
      case nf: False
      show ?thesis
      proof (cases "name \<in> set (map Name (rows tx))")
        case True
        with c e nf show ?thesis
          by (simp add: Create_duplicate[where compiles = compiles and allowedPath = allowedPath] del: set_map)
      next
        case False
        with c e nf show ?thesis
          by (simp add: Create_ok[where compiles = compiles and allowedPath = allowedPath] del: set_map)
      qed
    qed
  next
    fix w'
    assume "generateApiKey c tx = (Inl (Wrap Default EntropyFault ''random letters''), w')"
      and "rows w' = rows tx"
    with c show ?thesis by (simp add: Create_def)
  qed
qed

lemma Create_ids_distinct:
  assumes "distinct (map ID (rows tx))"
  shows "distinct (map ID (rows (snd (Create compiles c tx user name expiredAt allowedPath apiKeyType extra))))"
proof -
  have "fresh_id (rows tx) \<notin> ID ` set (rows tx)"
    using fresh_id_gt[of _ "rows tx"] by (metis imageE less_irrefl)
  with Create_rows[of compiles c tx user name expiredAt allowedPath apiKeyType extra] assms
  show ?thesis by auto
qed

lemma map_ID_replace:
  "ID new = i \<Longrightarrow> map ID (map (\<lambda>x. if ID x = i then new else x) rs) = map ID rs"
  by (induction rs) auto

lemma Put_ids:
  "map ID (rows (snd (Put c db user i))) = map ID (rows db)"
proof -
  from dal_First_cases[of db "[Where_id i]"] show ?thesis
  proof (elim disjE exE conjE)
    assume "dal_First [Where_id i] db = (Inl DalOther, tick db)"
    then show ?thesis by (simp add: Put_def getApiKeyById_def)
  next
    assume "dal_First [Where_id i] db = (Inl DalNotFound, tick db)"
    then show ?thesis by (simp add: Put_def getApiKeyById_def)
  next
    fix pre r post
    assume f: "dal_First [Where_id i] db = (Inr r, tick db)" and m: "matches [Where_id i] r"
    then have g: "getApiKeyById c db i [] = (Inr r, tick db)" by (simp add: getApiKeyById_def)
    from m have i: "ID r = i" by (simp add: Where_id_def)
    from generateApiKey_cases[of "tick db" c] show ?thesis
    proof (elim disjE exE conjE)
      fix w'
      assume "generateApiKey c (tick db) = (Inl (Wrap Default EntropyFault ''random letters''), w')"
        and "rows w' = rows (tick db)"
      then show ?thesis by (simp add: Put_def g)
    next
      fix f es
      assume k: "generateApiKey c (tick db) =
        (Inr (plaintext_of f, digest_of c (plaintext_of f)), (tick db)\<lparr>entropy := es\<rparr>)"
      show ?thesis
        by (cases user; cases "next_fault (tick db)")
           (simp_all add: Put_def g k Let_def dal_Update_def i map_ID_replace)
    qed
  qed
qed

lemma Put_ids_distinct:
  "distinct (map ID (rows db)) \<Longrightarrow> distinct (map ID (rows (snd (Put c db user i))))"
  by (simp add: Put_ids)

lemma Delete_rows:
  "\<exists>P. rows (snd (Delete c db i)) = filter P (rows db)"
proof -
  have t: "rows db = filter (\<lambda>x. True) (rows db)" by simp
  from dal_First_cases[of db "[Where_id i]"] show ?thesis
  proof (elim disjE exE conjE)
    assume "dal_First [Where_id i] db = (Inl DalOther, tick db)"
    then have "rows (snd (Delete c db i)) = rows db" by (simp add: Delete_def getApiKeyById_def)
    with t show ?thesis by metis
  next
    assume "dal_First [Where_id i] db = (Inl DalNotFound, tick db)"
    then have "rows (snd (Delete c db i)) = rows db" by (simp add: Delete_def getApiKeyById_def)
    with t show ?thesis by metis
  next
    fix pre r post
    assume f: "dal_First [Where_id i] db = (Inr r, tick db)"
    show ?thesis
    proof (cases "next_fault (tick db)")
      case True
      with f have "rows (snd (Delete c db i)) = rows db"
        by (simp add: Delete_def getApiKeyById_def dal_Delete_where_def)
      with t show ?thesis by metis
    next
      case False
      with f have "rows (snd (Delete c db i)) = filter (\<lambda>x. \<not> matches [Where_id i] x) (rows db)"
        by (simp add: Delete_def getApiKeyById_def dal_Delete_where_def del: matches_simps)
      then show ?thesis by blast
    qed
  qed
qed

lemma DeleteForPlugin_rows:
  "\<exists>P. rows (snd (DeleteForPlugin c tx p e)) = filter P (rows tx)"
proof -
  have t: "rows tx = filter (\<lambda>x. True) (rows tx)" by simp
  from dal_First_cases[of tx "plugin_clauses p e"] show ?thesis
  proof (elim disjE exE conjE)
    assume "dal_First (plugin_clauses p e) tx = (Inl DalOther, tick tx)"
    then have "rows (snd (DeleteForPlugin c tx p e)) = rows tx"
      by (simp add: DeleteForPlugin_def IsErrorNotFound_def)
    with t show ?thesis by metis
  next
    assume "dal_First (plugin_clauses p e) tx = (Inl DalNotFound, tick tx)"
    then have "rows (snd (DeleteForPlugin c tx p e)) = rows tx"
      by (simp add: DeleteForPlugin_def IsErrorNotFound_def)
    with t show ?thesis by metis
  next
    fix pre r post
    assume f: "dal_First (plugin_clauses p e) tx = (Inr r, tick tx)"
    show ?thesis
    proof (cases "next_fault (tick tx)")
      case True
      with f have "rows (snd (DeleteForPlugin c tx p e)) = rows tx"
        by (simp add: DeleteForPlugin_def dal_Delete_def dal_Delete_where_def)
      with t show ?thesis by metis
    next
      case False
      with f have "rows (snd (DeleteForPlugin c tx p e)) =
          filter (\<lambda>x. \<not> matches [Where_id (ID r)] x) (rows tx)"
        by (simp add: DeleteForPlugin_def dal_Delete_def dal_Delete_where_def del: matches_simps)
      then show ?thesis by blast
    qed
  qed
qed

lemma deletes_ids_distinct:
  assumes "distinct (map ID (rows w))"
  shows "distinct (map ID (rows (snd (Delete c w i))))"
    and "distinct (map ID (rows (snd (DeleteForPlugin c w p e))))"
  using Delete_rows[of c w i] DeleteForPlugin_rows[of c w p e] assms
  by (auto simp: distinct_map_filter)

section \<open>The examples\<close>

lemma ex_world_simps [simp]:
  "rows ex_world = ex_rows" "faults ex_world = []"
  "entropy ex_world = [Some (\<lambda>i. i), Some (\<lambda>i. 2 * i)]" "clock ex_world = 1700000000"
  "\<not> next_fault ex_world" "\<not> next_fault (tick ex_world)"
  by (simp_all add: ex_world_def next_fault_def tick_def)

lemma ex_key_simps [simp]:
  "ID (ex_key i n t e) = i" "Name (ex_key i n t e) = n" "Type (ex_key i n t e) = t"
  "Extra (ex_key i n t e) = e"
  by (simp_all add: ex_key_def)

lemma ex_Create:
  "Create ex_compiles ex_helper ex_world None ''deploy'' None ''/api/.*'' ''user'' [] =
    (Inr (created_record ex_world None ''deploy'' None ''/api/.*'' ''user'' [] (plaintext_of (\<lambda>i. i))),
     (tick ex_world)\<lparr>entropy := [Some (\<lambda>i. 2 * i)], rows := rows ex_world @
        [created_record ex_world None ''deploy'' None ''/api/.*'' ''user'' []
           (digest_of ex_helper (plaintext_of (\<lambda>i. i)))]\<rparr>)"
  by (rule Create_ok) (simp_all add: ex_compiles_def ex_rows_def)

text \<open>
  The digest at a published test vector of HMAC-SHA256 (RFC 4231, test case 2), and at
  the same token under another secret.
\<close>

lemma digest_rfc4231_case2:
  "digest_of \<lparr>encryptionSecret = ''Jefe''\<rparr> ''what do ya want for nothing?'' =
     ''5bdcc146bf60754e6a042426089575c75a003f089d2739839dec58b964ec3843''"
  by code_simp

lemma digest_other_secret:
  "digest_of \<lparr>encryptionSecret = ''Jefd''\<rparr> ''what do ya want for nothing?'' =
     ''f8d53118ce0680a281eda49c53a20bf1332f9440d35b08e3545dfb8877dde5a6''"
  by code_simp

lemma NewApiKeyHelper_examples:
  "NewApiKeyHelper ''a'' = Some \<lparr>encryptionSecret = ''a''\<rparr>"
  "NewApiKeyHelper [CHR ''a'', CHR 0x00] = Some \<lparr>encryptionSecret = [CHR ''a'', CHR 0x00]\<rparr>"
  "NewApiKeyHelper '' Jefe '' = Some \<lparr>encryptionSecret = ''Jefe''\<rparr>"
  "NewApiKeyHelper '' Jefd '' = Some \<lparr>encryptionSecret = ''Jefd''\<rparr>"
  "NewApiKeyHelper ''  '' = None"
  by code_simp+

section \<open>Results\<close>

text \<open>
  Claim C1. The claim reads: the record \<^verbatim>\<open>CreateForPlugin\<close> stores has the type
  \<^verbatim>\<open>plugin:<pluginName>\<close>, the allowed path it was given and no expiry. The source
  passes \<^verbatim>\<open>Create\<close> the tag where \<^verbatim>\<open>Create\<close> expects the allowed path, and the
  allowed path where it expects the type. At the input below the returned and the stored
  record have the path \<^verbatim>\<open>/plugins/webhook/.*\<close> as their type and the tag
  \<^verbatim>\<open>plugin:webhook\<close> as their allowed path, and \<^verbatim>\<open>DeleteForPlugin\<close>, which looks
  for the type \<^verbatim>\<open>plugin:webhook\<close>, finds no key to revoke.
\<close>

theorem CreateForPlugin_swaps_type_and_path:
  "fst (CreateForPlugin ex_compiles ex_helper ex_world None ''hook-c'' ''webhook'' ''/plugins/webhook/.*'' ''8'') =
     Inr \<lparr>ID = 4, CreatedAt = 1700000000, UpdatedAt = 1700000000, Creator = [], CreatorEmail = [],
          Updater = [], UpdaterEmail = [], Name = ''hook-c'', ApiKey = plaintext_of (\<lambda>i. i),
          ExpiredAt = None, AllowedPath = ''plugin:webhook'', Type = ''/plugins/webhook/.*'',
          Extra = ''8''\<rparr> \<and>
   map (\<lambda>r. (ID r, Type r, AllowedPath r))
     (rows (snd (CreateForPlugin ex_compiles ex_helper ex_world None ''hook-c'' ''webhook''
        ''/plugins/webhook/.*'' ''8''))) =
     [(1, ''user'', ''.*''), (2, ''plugin:webhook'', ''.*''), (3, ''plugin:webhook'', ''.*''),
      (4, ''/plugins/webhook/.*'', ''plugin:webhook'')] \<and>
   DeleteForPlugin ex_helper
     (snd (CreateForPlugin ex_compiles ex_helper ex_world None ''hook-c'' ''webhook''
        ''/plugins/webhook/.*'' ''8'')) ''webhook'' ''8'' =
     (None, tick (snd (CreateForPlugin ex_compiles ex_helper ex_world None ''hook-c'' ''webhook''
        ''/plugins/webhook/.*'' ''8'')))"
proof -
  let ?call = "CreateForPlugin ex_compiles ex_helper ex_world None ''hook-c'' ''webhook'' ''/plugins/webhook/.*'' ''8''"
  have c: "?call =
    (Inr (created_record ex_world None ''hook-c'' None ''plugin:webhook'' ''/plugins/webhook/.*'' ''8''
            (plaintext_of (\<lambda>i. i))),
     (tick ex_world)\<lparr>entropy := [Some (\<lambda>i. 2 * i)], rows := rows ex_world @
        [created_record ex_world None ''hook-c'' None ''plugin:webhook'' ''/plugins/webhook/.*'' ''8''
           (digest_of ex_helper (plaintext_of (\<lambda>i. i)))]\<rparr>)"
  proof -
    have "Create ex_compiles ex_helper ex_world None ''hook-c'' None ''plugin:webhook''
        ''/plugins/webhook/.*'' ''8'' =
      (Inr (created_record ex_world None ''hook-c'' None ''plugin:webhook'' ''/plugins/webhook/.*'' ''8''
            (plaintext_of (\<lambda>i. i))),
       (tick ex_world)\<lparr>entropy := [Some (\<lambda>i. 2 * i)], rows := rows ex_world @
        [created_record ex_world None ''hook-c'' None ''plugin:webhook'' ''/plugins/webhook/.*'' ''8''
           (digest_of ex_helper (plaintext_of (\<lambda>i. i)))]\<rparr>)"
      by (rule Create_ok) (simp_all add: ex_compiles_def ex_rows_def)
    then show ?thesis by (simp add: CreateForPlugin_def)
  qed
  have i: "fresh_id ex_rows = 4" by (simp add: fresh_id_def ex_rows_def)
  have 1: "fst ?call = Inr \<lparr>ID = 4, CreatedAt = 1700000000, UpdatedAt = 1700000000, Creator = [],
          CreatorEmail = [], Updater = [], UpdaterEmail = [], Name = ''hook-c'',
          ApiKey = plaintext_of (\<lambda>i. i), ExpiredAt = None, AllowedPath = ''plugin:webhook'',
          Type = ''/plugins/webhook/.*'', Extra = ''8''\<rparr>"
    by (simp add: c created_record_def i)
  have 2: "map (\<lambda>r. (ID r, Type r, AllowedPath r)) (rows (snd ?call)) =
     [(1, ''user'', ''.*''), (2, ''plugin:webhook'', ''.*''), (3, ''plugin:webhook'', ''.*''),
      (4, ''/plugins/webhook/.*'', ''plugin:webhook'')]"
    by (simp add: c i) (simp add: ex_rows_def ex_key_def)
  have "\<forall>r \<in> set (rows (snd ?call)). \<not> matches (plugin_clauses ''webhook'' ''8'') r"
    by (simp add: c matches_plugin_clauses) (simp add: ex_rows_def)
  moreover have "\<not> next_fault (snd ?call)" by (simp add: c)
  ultimately have 3: "DeleteForPlugin ex_helper (snd ?call) ''webhook'' ''8'' = (None, tick (snd ?call))"
    by (rule DeleteForPlugin_none[rotated])
  from 1 2 3 show ?thesis by blast
qed

text \<open>
  Claim C2. After a successful \<^verbatim>\<open>Create\<close>, which returns the record \<open>r\<close> with the
  plaintext in its \<open>ApiKey\<close> field, a lookup of \<open>ID r\<close> that meets no storage fault
  returns a stored record \<open>s\<close>: it is \<open>r\<close> but for the \<open>ApiKey\<close> field, which holds
  \<^verbatim>\<open>DigestToken\<close> of the plaintext, and the plaintext differs from it (128 letters
  against 64 hexadecimal digits).
\<close>

theorem Create_then_Lookup:
  assumes "Create compiles c tx user name expiredAt allowedPath apiKeyType extra = (Inr r, tx')"
    and "\<not> next_fault tx'"
  shows "\<exists>s. getApiKeyById c tx' (ID r) [] = (Inr s, tick tx') \<and> s \<in> set (rows tx') \<and>
           s = r\<lparr>ApiKey := ApiKey s\<rparr> \<and>
           DigestToken c (ApiKey r) = Inr (ApiKey s) \<and> ApiKey r \<noteq> ApiKey s"
proof -
  from Create_Inr_D[OF assms(1)] obtain f es where
    r: "r = created_record tx user name expiredAt allowedPath apiKeyType extra (plaintext_of f)"
    and tx': "tx' = (tick tx)\<lparr>entropy := es, rows := rows tx @
        [created_record tx user name expiredAt allowedPath apiKeyType extra (digest_of c (plaintext_of f))]\<rparr>"
    by blast
  let ?s = "created_record tx user name expiredAt allowedPath apiKeyType extra (digest_of c (plaintext_of f))"
  have rows: "rows tx' = rows tx @ ?s # []" by (simp add: tx')
  have older: "\<forall>x \<in> set (rows tx). \<not> (ID x = ID r \<and> matches [] x)"
    by (auto simp: r dest: fresh_id_gt)
  have "getApiKeyById c tx' (ID r) [] = (Inr ?s, tick tx')"
    using assms(2) rows _ _ older by (rule getApiKeyById_some) (simp_all add: r)
  moreover have "?s \<in> set (rows tx')" by (simp add: rows)
  moreover have "?s = r\<lparr>ApiKey := ApiKey ?s\<rparr>" by (simp add: r)
  moreover have "DigestToken c (ApiKey r) = Inr (ApiKey ?s)"
    by (simp add: r DigestToken_eq digest_of_def)
  moreover have "ApiKey r \<noteq> ApiKey ?s" by (simp add: r plaintext_neq_digest)
  ultimately show ?thesis by blast
qed

theorem Create_then_Lookup_witness:
  "fst (Create ex_compiles ex_helper ex_world None ''deploy'' None ''/api/.*'' ''user'' []) =
     Inr (created_record ex_world None ''deploy'' None ''/api/.*'' ''user'' [] (plaintext_of (\<lambda>i. i))) \<and>
   \<not> next_fault (snd (Create ex_compiles ex_helper ex_world None ''deploy'' None ''/api/.*'' ''user'' [])) \<and>
   (\<exists>s. getApiKeyById ex_helper
          (snd (Create ex_compiles ex_helper ex_world None ''deploy'' None ''/api/.*'' ''user'' [])) 4 [] =
        (Inr s, tick (snd (Create ex_compiles ex_helper ex_world None ''deploy'' None ''/api/.*'' ''user'' []))) \<and>
      s \<in> set (rows (snd (Create ex_compiles ex_helper ex_world None ''deploy'' None ''/api/.*'' ''user'' []))) \<and>
      DigestToken ex_helper (plaintext_of (\<lambda>i. i)) = Inr (ApiKey s) \<and>
      plaintext_of (\<lambda>i. i) \<noteq> ApiKey s)"
proof -
  let ?call = "Create ex_compiles ex_helper ex_world None ''deploy'' None ''/api/.*'' ''user'' []"
  let ?r = "created_record ex_world None ''deploy'' None ''/api/.*'' ''user'' [] (plaintext_of (\<lambda>i. i))"
  have c: "?call = (Inr ?r, snd ?call)" by (simp add: ex_Create)
  have nf: "\<not> next_fault (snd ?call)" by (simp add: ex_Create)
  have i: "ID ?r = 4" by (simp add: fresh_id_def ex_rows_def)
  have k: "ApiKey ?r = plaintext_of (\<lambda>i. i)" by simp
  from Create_then_Lookup[OF c nf] obtain s where
    "getApiKeyById ex_helper (snd ?call) (ID ?r) [] = (Inr s, tick (snd ?call))"
    "s \<in> set (rows (snd ?call))"
    "DigestToken ex_helper (ApiKey ?r) = Inr (ApiKey s)" "ApiKey ?r \<noteq> ApiKey s"
    by blast
  then have "getApiKeyById ex_helper (snd ?call) 4 [] = (Inr s, tick (snd ?call)) \<and>
    s \<in> set (rows (snd ?call)) \<and>
    DigestToken ex_helper (plaintext_of (\<lambda>i. i)) = Inr (ApiKey s) \<and> plaintext_of (\<lambda>i. i) \<noteq> ApiKey s"
    unfolding i k by blast
  then have "\<exists>s. getApiKeyById ex_helper (snd ?call) 4 [] = (Inr s, tick (snd ?call)) \<and>
    s \<in> set (rows (snd ?call)) \<and>
    DigestToken ex_helper (plaintext_of (\<lambda>i. i)) = Inr (ApiKey s) \<and> plaintext_of (\<lambda>i. i) \<noteq> ApiKey s" ..
  moreover have "fst ?call = Inr ?r" using c by (metis fst_conv)
  ultimately show ?thesis using nf by blast
qed

text \<open>
  Claim C3. The claim reads: the digest is a function of the secret and the token, and
  two helpers constructed with different secrets give different digests of the same
  token. The second half fails: HMAC pads a short key with zero bytes, so the helpers
  constructed with the secret \<^verbatim>\<open>a\<close> and with \<^verbatim>\<open>a\<close> followed by a zero byte give
  the same digest of every token.
\<close>

theorem DigestToken_keyed_counterexample:
  "NewApiKeyHelper ''a'' = Some \<lparr>encryptionSecret = ''a''\<rparr> \<and>
   NewApiKeyHelper [CHR ''a'', CHR 0x00] = Some \<lparr>encryptionSecret = [CHR ''a'', CHR 0x00]\<rparr> \<and>
   ''a'' \<noteq> [CHR ''a'', CHR 0x00] \<and>
   DigestToken \<lparr>encryptionSecret = ''a''\<rparr> ''token'' =
     DigestToken \<lparr>encryptionSecret = [CHR ''a'', CHR 0x00]\<rparr> ''token''"
proof -
  have "DigestToken \<lparr>encryptionSecret = ''a''\<rparr> ''token'' =
     DigestToken \<lparr>encryptionSecret = [CHR ''a'', CHR 0x00]\<rparr> ''token''"
    by (simp add: DigestToken_eq hmac_block_key[OF block_key_trailing_zero])
  moreover have "''a'' \<noteq> [CHR ''a'', CHR 0x00]" by simp
  ultimately show ?thesis using NewApiKeyHelper_examples(1,2) by blast
qed

text \<open>
  Claim C3, as amended. \<^verbatim>\<open>DigestToken\<close> never fails and returns the 64 hexadecimal
  digits of the HMAC-SHA256 of the token under the secret; helpers with the same secret
  return the same digest. The digest is keyed: the secrets \<^verbatim>\<open>Jefe\<close> and \<^verbatim>\<open>Jefd\<close>
  give different digests of the same token. It depends on the secret only through the
  HMAC block key (the secret, hashed first when longer than 64 bytes, padded with zero
  bytes to 64), so helpers whose secrets have the same block key return the same digest.
\<close>

theorem DigestToken_deterministic_keyed:
  "DigestToken c x = Inr (digest_of c x) \<and> length (digest_of c x) = 64 \<and>
   (encryptionSecret c = encryptionSecret c' \<longrightarrow> DigestToken c x = DigestToken c' x) \<and>
   (block_key (bytes_of (encryptionSecret c)) = block_key (bytes_of (encryptionSecret c')) \<longrightarrow>
      DigestToken c x = DigestToken c' x) \<and>
   DigestToken \<lparr>encryptionSecret = ''Jefe''\<rparr> ''what do ya want for nothing?'' \<noteq>
     DigestToken \<lparr>encryptionSecret = ''Jefd''\<rparr> ''what do ya want for nothing?''"
proof (intro conjI impI)
  show d: "DigestToken c x = Inr (digest_of c x)" for c x
    by (simp only: DigestToken_eq digest_of_def)
  show "length (digest_of c x) = 64"
    by (simp only: digest_of_def length_digest)
  show "DigestToken c x = DigestToken c' x" if "encryptionSecret c = encryptionSecret c'"
    using that by (simp only: DigestToken_eq)
  show "DigestToken c x = DigestToken c' x"
    if "block_key (bytes_of (encryptionSecret c)) = block_key (bytes_of (encryptionSecret c'))"
    using hmac_block_key[OF that, of "bytes_of x"] by (simp only: DigestToken_eq)
  show "DigestToken \<lparr>encryptionSecret = ''Jefe''\<rparr> ''what do ya want for nothing?'' \<noteq>
     DigestToken \<lparr>encryptionSecret = ''Jefd''\<rparr> ''what do ya want for nothing?''"
    unfolding d digest_rfc4231_case2 digest_other_secret by simp
qed

theorem DigestToken_deterministic_keyed_witness:
  "NewApiKeyHelper '' Jefe '' = Some \<lparr>encryptionSecret = ''Jefe''\<rparr> \<and>
   encryptionSecret \<lparr>encryptionSecret = ''Jefe''\<rparr> = encryptionSecret \<lparr>encryptionSecret = ''Jefe''\<rparr> \<and>
   DigestToken \<lparr>encryptionSecret = ''Jefe''\<rparr> ''what do ya want for nothing?'' =
     Inr ''5bdcc146bf60754e6a042426089575c75a003f089d2739839dec58b964ec3843'' \<and>
   block_key (bytes_of (encryptionSecret \<lparr>encryptionSecret = ''a''\<rparr>)) =
     block_key (bytes_of (encryptionSecret \<lparr>encryptionSecret = [CHR ''a'', CHR 0x00]\<rparr>)) \<and>
   DigestToken \<lparr>encryptionSecret = ''a''\<rparr> ''token'' =
     DigestToken \<lparr>encryptionSecret = [CHR ''a'', CHR 0x00]\<rparr> ''token'' \<and>
   length (digest_of ex_helper ''token'') = 64"
proof -
  have b: "block_key (bytes_of (encryptionSecret \<lparr>encryptionSecret = ''a''\<rparr>)) =
     block_key (bytes_of (encryptionSecret \<lparr>encryptionSecret = [CHR ''a'', CHR 0x00]\<rparr>))"
    using block_key_trailing_zero by simp
  from DigestToken_deterministic_keyed[of "\<lparr>encryptionSecret = ''Jefe''\<rparr>"
      "''what do ya want for nothing?''" "\<lparr>encryptionSecret = ''Jefe''\<rparr>"]
  have 1: "DigestToken \<lparr>encryptionSecret = ''Jefe''\<rparr> ''what do ya want for nothing?'' =
     Inr ''5bdcc146bf60754e6a042426089575c75a003f089d2739839dec58b964ec3843''"
    unfolding digest_rfc4231_case2 by blast
  from DigestToken_deterministic_keyed[of ex_helper "''token''" ex_helper]
  have 3: "length (digest_of ex_helper ''token'') = 64"
    by blast
  from b DigestToken_deterministic_keyed[of "\<lparr>encryptionSecret = ''a''\<rparr>" "''token''"
      "\<lparr>encryptionSecret = [CHR ''a'', CHR 0x00]\<rparr>"]
  have 2: "DigestToken \<lparr>encryptionSecret = ''a''\<rparr> ''token'' =
     DigestToken \<lparr>encryptionSecret = [CHR ''a'', CHR 0x00]\<rparr> ''token''"
    by blast
  from b 1 2 3 NewApiKeyHelper_examples(3) show ?thesis by blast
qed

text \<open>
  Claim C4. For every \<open>allowedPath\<close> that \<^verbatim>\<open>regexp.Compile\<close> rejects, \<^verbatim>\<open>Create\<close>
  fails with the default-type error that wraps the syntax error under the message
  \<^verbatim>\<open>compile allowed path: <allowedPath>\<close>, and returns the world it was given: no call
  reaches the persistence layer or the random source, and no record is stored.
\<close>

theorem Create_invalid_pattern:
  assumes "\<not> compiles allowedPath"
  shows "Create compiles c tx user name expiredAt allowedPath apiKeyType extra =
    (Inl (Wrap Default RegexpSyntax (''compile allowed path: '' @ allowedPath)), tx)"
  using assms by (simp add: Create_def)

theorem Create_invalid_pattern_witness:
  "\<not> ex_compiles ''('' \<and>
   Create ex_compiles ex_helper ex_world None ''k'' None ''('' ''user'' [] =
     (Inl (Wrap Default RegexpSyntax ''compile allowed path: (''), ex_world)"
  using Create_invalid_pattern[of ex_compiles "''(''" ex_helper ex_world None "''k''" None "''user''" "[]"]
  by (simp add: ex_compiles_def)

text \<open>
  Claim C5. Two calls of \<^verbatim>\<open>Create\<close> with the same name, a name no stored record has:
  when both patterns compile, the random source delivers twice and neither call meets a
  storage fault, the first call succeeds and returns a record of that name, and the
  second fails with the bad-input error
  \<^verbatim>\<open>An api key with name [<name>] has already exists\<close> and stores nothing.
\<close>

theorem Create_same_name_twice:
  assumes "compiles allowedPath" and "compiles allowedPath'"
    and "entropy tx = Some f # Some f' # es"
    and "\<not> next_fault tx" and "\<not> next_fault (tick tx)"
    and "name \<notin> set (map Name (rows tx))"
  shows "\<exists>r tx'.
     Create compiles c tx user name expiredAt allowedPath apiKeyType extra = (Inr r, tx') \<and>
     Name r = name \<and>
     Create compiles c tx' user' name expiredAt' allowedPath' apiKeyType' extra' =
       (Inl (New BadInput (''An api key with name ['' @ name @ ''] has already exists'')),
        (tick tx')\<lparr>entropy := es\<rparr>) \<and>
     rows ((tick tx')\<lparr>entropy := es\<rparr>) = rows tx'"
proof -
  let ?s = "created_record tx user name expiredAt allowedPath apiKeyType extra (digest_of c (plaintext_of f))"
  let ?tx' = "(tick tx)\<lparr>entropy := Some f' # es, rows := rows tx @ [?s]\<rparr>"
  have 1: "Create compiles c tx user name expiredAt allowedPath apiKeyType extra =
      (Inr (created_record tx user name expiredAt allowedPath apiKeyType extra (plaintext_of f)), ?tx')"
    using assms(1,3,4,6) by (rule Create_ok)
  have e: "entropy ?tx' = Some f' # es" by simp
  have nf: "\<not> next_fault ?tx'" using assms(5) by simp
  have d: "name \<in> set (map Name (rows ?tx'))" by simp
  have 2: "Create compiles c ?tx' user' name expiredAt' allowedPath' apiKeyType' extra' =
       (Inl (New BadInput (''An api key with name ['' @ name @ ''] has already exists'')),
        (tick ?tx')\<lparr>entropy := es\<rparr>)"
    using assms(2) e nf d by (rule Create_duplicate)
  have 3: "rows ((tick ?tx')\<lparr>entropy := es\<rparr>) = rows ?tx'" by simp
  have 4: "Name (created_record tx user name expiredAt allowedPath apiKeyType extra (plaintext_of f)) = name"
    by simp
  from 1 2 3 4 show ?thesis by blast
qed

theorem Create_same_name_twice_witness:
  "ex_compiles ''/api/.*'' \<and> ex_compiles ''/other'' \<and>
   entropy ex_world = [Some (\<lambda>i. i), Some (\<lambda>i. 2 * i)] \<and>
   \<not> next_fault ex_world \<and> \<not> next_fault (tick ex_world) \<and>
   ''deploy'' \<notin> set (map Name (rows ex_world)) \<and>
   (\<exists>r1 tx1.
     Create ex_compiles ex_helper ex_world None ''deploy'' None ''/api/.*'' ''user'' [] = (Inr r1, tx1) \<and>
     Name r1 = ''deploy'' \<and>
     Create ex_compiles ex_helper tx1 None ''deploy'' (Some 1800000000) ''/other'' ''user'' ''x'' =
       (Inl (New BadInput ''An api key with name [deploy] has already exists''),
        (tick tx1)\<lparr>entropy := []\<rparr>))"
proof -
  have h: "ex_compiles ''/api/.*''" "ex_compiles ''/other''"
    "entropy ex_world = Some (\<lambda>i. i) # Some (\<lambda>i. 2 * i) # []"
    "\<not> next_fault ex_world" "\<not> next_fault (tick ex_world)"
    "''deploy'' \<notin> set (map Name (rows ex_world))"
    by (simp_all add: ex_compiles_def ex_rows_def)
  from Create_same_name_twice[where compiles = ex_compiles and allowedPath = "''/api/.*''"
      and allowedPath' = "''/other''" and c = ex_helper and user = None and user' = None
      and expiredAt = None and expiredAt' = "Some 1800000000" and apiKeyType = "''user''"
      and apiKeyType' = "''user''" and extra = "[]" and extra' = "''x''", OF h]
  show ?thesis using h by auto
qed

text \<open>
  Claim C6. The claim reads: \<^verbatim>\<open>Put\<close> replaces the stored digest with a new one distinct
  from the old. Nothing in \<^verbatim>\<open>Put\<close> compares the two. With a random source that
  delivers the same numbers twice, the key created below is rotated to the plaintext it
  already had, and the stored digest after the rotation is the stored digest before it.
\<close>

theorem Put_same_digest_counterexample:
  "map (\<lambda>r. (ID r, ApiKey r))
     (rows (snd (Create ex_compiles ex_helper ex_stuck None ''deploy'' None ''.*'' ''user'' []))) =
     [(1, digest_of ex_helper (plaintext_of stuck))] \<and>
   map_sum id ApiKey
     (fst (Put ex_helper (snd (Create ex_compiles ex_helper ex_stuck None ''deploy'' None ''.*'' ''user'' []))
        None 1)) = Inr (plaintext_of stuck) \<and>
   map (\<lambda>r. (ID r, ApiKey r))
     (rows (snd (Put ex_helper
        (snd (Create ex_compiles ex_helper ex_stuck None ''deploy'' None ''.*'' ''user'' [])) None 1))) =
     [(1, digest_of ex_helper (plaintext_of stuck))]"
proof -
  let ?s = "created_record ex_stuck None ''deploy'' None ''.*'' ''user'' []"
  let ?w = "(tick ex_stuck)\<lparr>entropy := [Some stuck], rows := rows ex_stuck @
        [?s (digest_of ex_helper (plaintext_of stuck))]\<rparr>"
  have c: "Create ex_compiles ex_helper ex_stuck None ''deploy'' None ''.*'' ''user'' [] =
      (Inr (?s (plaintext_of stuck)), ?w)"
    by (rule Create_ok) (simp_all add: ex_compiles_def ex_stuck_def next_fault_def)
  have i: "fresh_id (rows ex_stuck) = 1" by (simp add: fresh_id_def ex_stuck_def)
  have nf: "\<not> next_fault ?w" "\<not> next_fault (tick ?w)"
    by (simp_all add: ex_stuck_def next_fault_def)
  have r: "rows ?w = [] @ ?s (digest_of ex_helper (plaintext_of stuck)) # []"
    by (simp add: ex_stuck_def)
  have p: "Put ex_helper ?w None 1 =
    (Inr ((?s (digest_of ex_helper (plaintext_of stuck)))\<lparr>ApiKey := plaintext_of stuck, UpdatedAt := clock ?w,
              Updater := Updater (?s (digest_of ex_helper (plaintext_of stuck))),
              UpdaterEmail := UpdaterEmail (?s (digest_of ex_helper (plaintext_of stuck)))\<rparr>),
     (tick (tick ?w))\<lparr>entropy := [],
        rows := map (\<lambda>x. if ID x = 1
          then (?s (digest_of ex_helper (plaintext_of stuck)))\<lparr>ApiKey := digest_of ex_helper (plaintext_of stuck),
              UpdatedAt := clock ?w,
              Updater := Updater (?s (digest_of ex_helper (plaintext_of stuck))),
              UpdaterEmail := UpdaterEmail (?s (digest_of ex_helper (plaintext_of stuck)))\<rparr>
          else x) (rows ?w)\<rparr>)"
    using Put_ok[OF nf r, of 1 stuck "[]" ex_helper None] by (simp add: i)
  show ?thesis
    unfolding c snd_conv p fst_conv by (simp add: ex_stuck_def fresh_id_def)
qed

text \<open>
  Claim C6, as amended. With no storage fault on the lookup: when no stored record has the
  identifier \<open>i\<close>, \<^verbatim>\<open>Put\<close> fails with the not-found error naming \<open>i\<close>. When \<open>old\<close> is
  the first stored record with the identifier \<open>i\<close>, the random source delivers and the
  update meets no fault, \<^verbatim>\<open>Put\<close> stores, in the place of every record with that
  identifier, \<open>old\<close> with the update time set to the clock, the updater set to the
  actor when there is one, and the digest of the new plaintext in the \<open>ApiKey\<close> field; it
  returns the same record with the plaintext in that field. \<^verbatim>\<open>DigestToken\<close> of the
  returned plaintext is the stored digest, and the plaintext differs from it. That the new
  digest differs from the old one is not part of the statement.
\<close>

theorem Put_rotates:
  assumes "\<not> next_fault db"
  shows "((\<forall>r \<in> set (rows db). ID r \<noteq> i) \<longrightarrow>
            Put c db user i =
              (Inl (Wrap NotFound DalNotFound (''could not find api key id['' @ fmt_d i @ ''] in DB'')),
               tick db))
     \<and> (\<forall>pre old post f es.
           rows db = pre @ old # post \<and> ID old = i \<and> (\<forall>x \<in> set pre. ID x \<noteq> i) \<and>
           entropy db = Some f # es \<and> \<not> next_fault (tick db) \<longrightarrow>
           (let updated = old\<lparr>UpdatedAt := clock db,
                  Updater := (case user of None \<Rightarrow> Updater old | Some u \<Rightarrow> user_Name u),
                  UpdaterEmail := (case user of None \<Rightarrow> UpdaterEmail old | Some u \<Rightarrow> user_Email u)\<rparr>
            in Put c db user i =
                 (Inr (updated\<lparr>ApiKey := plaintext_of f\<rparr>),
                  (tick (tick db))\<lparr>entropy := es,
                     rows := map (\<lambda>x. if ID x = i then updated\<lparr>ApiKey := digest_of c (plaintext_of f)\<rparr> else x)
                               (rows db)\<rparr>) \<and>
               DigestToken c (plaintext_of f) = Inr (digest_of c (plaintext_of f)) \<and>
               plaintext_of f \<noteq> digest_of c (plaintext_of f)))"
proof (intro conjI impI allI)
  assume "\<forall>r \<in> set (rows db). ID r \<noteq> i"
  with assms show "Put c db user i =
      (Inl (Wrap NotFound DalNotFound (''could not find api key id['' @ fmt_d i @ ''] in DB'')), tick db)"
    by (rule Put_absent)
next
  fix pre old post f es
  assume a: "rows db = pre @ old # post \<and> ID old = i \<and> (\<forall>x \<in> set pre. ID x \<noteq> i) \<and>
           entropy db = Some f # es \<and> \<not> next_fault (tick db)"
  then have h: "\<not> next_fault (tick db)" "rows db = pre @ old # post" "ID old = i"
    "\<forall>x \<in> set pre. ID x \<noteq> i" "entropy db = Some f # es"
    by blast+
  have d: "DigestToken c (plaintext_of f) = Inr (digest_of c (plaintext_of f))"
    by (simp add: DigestToken_eq digest_of_def)
  show "let updated = old\<lparr>UpdatedAt := clock db,
                  Updater := (case user of None \<Rightarrow> Updater old | Some u \<Rightarrow> user_Name u),
                  UpdaterEmail := (case user of None \<Rightarrow> UpdaterEmail old | Some u \<Rightarrow> user_Email u)\<rparr>
            in Put c db user i =
                 (Inr (updated\<lparr>ApiKey := plaintext_of f\<rparr>),
                  (tick (tick db))\<lparr>entropy := es,
                     rows := map (\<lambda>x. if ID x = i then updated\<lparr>ApiKey := digest_of c (plaintext_of f)\<rparr> else x)
                               (rows db)\<rparr>) \<and>
               DigestToken c (plaintext_of f) = Inr (digest_of c (plaintext_of f)) \<and>
               plaintext_of f \<noteq> digest_of c (plaintext_of f)"
    using Put_ok[OF assms h, of c user] d plaintext_neq_digest[of f c "plaintext_of f"]
    by (simp add: Let_def)
qed

theorem Put_rotates_witness:
  "\<not> next_fault ex_world \<and> list_all (\<lambda>r. ID r \<noteq> 9) (rows ex_world) \<and>
   Put ex_helper ex_world (Some ex_user) 9 =
     (Inl (Wrap NotFound DalNotFound ''could not find api key id[9] in DB''), tick ex_world) \<and>
   rows ex_world = [ex_key 1 ''ci'' ''user'' []] @ ex_key 2 ''hook-a'' ''plugin:webhook'' ''7'' #
     [ex_key 3 ''hook-b'' ''plugin:webhook'' ''7''] \<and>
   ID (ex_key 2 ''hook-a'' ''plugin:webhook'' ''7'') = 2 \<and>
   list_all (\<lambda>x. ID x \<noteq> 2) [ex_key 1 ''ci'' ''user'' []] \<and>
   entropy ex_world = [Some (\<lambda>i. i), Some (\<lambda>i. 2 * i)] \<and> \<not> next_fault (tick ex_world) \<and>
   Put ex_helper ex_world (Some ex_user) 2 =
     (Inr ((ex_key 2 ''hook-a'' ''plugin:webhook'' ''7'')\<lparr>UpdatedAt := 1700000000,
             Updater := ''alice'', UpdaterEmail := ''alice@example.org'',
             ApiKey := plaintext_of (\<lambda>i. i)\<rparr>),
      (tick (tick ex_world))\<lparr>entropy := [Some (\<lambda>i. 2 * i)],
         rows := [ex_key 1 ''ci'' ''user'' [],
           (ex_key 2 ''hook-a'' ''plugin:webhook'' ''7'')\<lparr>UpdatedAt := 1700000000,
             Updater := ''alice'', UpdaterEmail := ''alice@example.org'',
             ApiKey := digest_of ex_helper (plaintext_of (\<lambda>i. i))\<rparr>,
           ex_key 3 ''hook-b'' ''plugin:webhook'' ''7'']\<rparr>)"
proof -
  have nf: "\<not> next_fault ex_world" by simp
  have a: "\<forall>r \<in> set (rows ex_world). ID r \<noteq> 9" by (simp add: ex_rows_def)
  have b: "rows ex_world = [ex_key 1 ''ci'' ''user'' []] @ ex_key 2 ''hook-a'' ''plugin:webhook'' ''7'' #
       [ex_key 3 ''hook-b'' ''plugin:webhook'' ''7''] \<and>
     ID (ex_key 2 ''hook-a'' ''plugin:webhook'' ''7'') = 2 \<and>
     (\<forall>x \<in> set [ex_key 1 ''ci'' ''user'' []]. ID x \<noteq> 2) \<and>
     entropy ex_world = Some (\<lambda>i. i) # [Some (\<lambda>i. 2 * i)] \<and> \<not> next_fault (tick ex_world)"
    by (simp add: ex_rows_def)
  from Put_rotates[OF nf, of 9 ex_helper "Some ex_user"] a
  have 1: "Put ex_helper ex_world (Some ex_user) 9 =
     (Inl (Wrap NotFound DalNotFound (''could not find api key id['' @ fmt_d 9 @ ''] in DB'')), tick ex_world)"
    by blast
  from Put_rotates[OF nf, of 2 ex_helper "Some ex_user"] b
  have 2: "let updated = (ex_key 2 ''hook-a'' ''plugin:webhook'' ''7'')\<lparr>UpdatedAt := clock ex_world,
                  Updater := (case Some ex_user of None \<Rightarrow> Updater (ex_key 2 ''hook-a'' ''plugin:webhook'' ''7'') | Some u \<Rightarrow> user_Name u),
                  UpdaterEmail := (case Some ex_user of None \<Rightarrow> UpdaterEmail (ex_key 2 ''hook-a'' ''plugin:webhook'' ''7'') | Some u \<Rightarrow> user_Email u)\<rparr>
            in Put ex_helper ex_world (Some ex_user) 2 =
                 (Inr (updated\<lparr>ApiKey := plaintext_of (\<lambda>i. i)\<rparr>),
                  (tick (tick ex_world))\<lparr>entropy := [Some (\<lambda>i. 2 * i)],
                     rows := map (\<lambda>x. if ID x = 2 then updated\<lparr>ApiKey := digest_of ex_helper (plaintext_of (\<lambda>i. i))\<rparr> else x)
                               (rows ex_world)\<rparr>) \<and>
               DigestToken ex_helper (plaintext_of (\<lambda>i. i)) = Inr (digest_of ex_helper (plaintext_of (\<lambda>i. i))) \<and>
               plaintext_of (\<lambda>i. i) \<noteq> digest_of ex_helper (plaintext_of (\<lambda>i. i))"
    by blast
  have 3: "Put ex_helper ex_world (Some ex_user) 2 =
     (Inr ((ex_key 2 ''hook-a'' ''plugin:webhook'' ''7'')\<lparr>UpdatedAt := 1700000000,
             Updater := ''alice'', UpdaterEmail := ''alice@example.org'',
             ApiKey := plaintext_of (\<lambda>i. i)\<rparr>),
      (tick (tick ex_world))\<lparr>entropy := [Some (\<lambda>i. 2 * i)],
         rows := [ex_key 1 ''ci'' ''user'' [],
           (ex_key 2 ''hook-a'' ''plugin:webhook'' ''7'')\<lparr>UpdatedAt := 1700000000,
             Updater := ''alice'', UpdaterEmail := ''alice@example.org'',
             ApiKey := digest_of ex_helper (plaintext_of (\<lambda>i. i))\<rparr>,
           ex_key 3 ''hook-b'' ''plugin:webhook'' ''7'']\<rparr>)"
    using 2 by (simp add: Let_def ex_user_def ex_rows_def)
  show ?thesis using nf a b 1 3 by (simp add: ex_rows_def fmt_d.simps hexdigit_def)
qed

text \<open>
  Claim C7. \<^verbatim>\<open>getApiKeyById\<close> returns the first stored record that has the identifier
  and passes the additional clauses, as it is stored; or, when no stored record does, the
  not-found error naming the identifier; or, when the persistence layer reports a fault,
  the default-type error that wraps it. \<^verbatim>\<open>GetApiKey\<close> returns the first stored record
  that passes the clauses, as it is stored; or the zero record beside the persistence
  layer's own not-found error; or the zero record beside its fault. Neither changes the
  rows: the world afterwards is the one after a single call of the persistence layer.
\<close>

theorem lookups_return_stored_record_or_error:
  "((\<exists>pre r post. fst (getApiKeyById c tx i cs) = Inr r \<and> \<not> next_fault tx \<and>
        rows tx = pre @ r # post \<and> ID r = i \<and> matches cs r \<and>
        (\<forall>x \<in> set pre. \<not> (ID x = i \<and> matches cs x)))
    \<or> (fst (getApiKeyById c tx i cs) =
          Inl (Wrap NotFound DalNotFound (''could not find api key id['' @ fmt_d i @ ''] in DB'')) \<and>
        \<not> next_fault tx \<and> (\<forall>r \<in> set (rows tx). \<not> (ID r = i \<and> matches cs r)))
    \<or> (fst (getApiKeyById c tx i cs) = Inl (Wrap Default DalOther ''error getting api key from DB'') \<and>
        next_fault tx))
   \<and> ((\<exists>pre r post. fst (GetApiKey c tx cs') = (r, None) \<and> \<not> next_fault tx \<and>
        rows tx = pre @ r # post \<and> matches cs' r \<and> (\<forall>x \<in> set pre. \<not> matches cs' x))
    \<or> (fst (GetApiKey c tx cs') = (zero_ApiKey, Some (Unwrapped DalNotFound)) \<and>
        \<not> next_fault tx \<and> (\<forall>r \<in> set (rows tx). \<not> matches cs' r))
    \<or> (fst (GetApiKey c tx cs') = (zero_ApiKey, Some (Unwrapped DalOther)) \<and> next_fault tx))
   \<and> snd (getApiKeyById c tx i cs) = tick tx \<and> snd (GetApiKey c tx cs') = tick tx
   \<and> rows (tick tx) = rows tx"
  using getApiKeyById_outcomes[of c tx i cs] GetApiKey_outcomes[of c tx cs'] lookups_world(1)[of c tx i cs] lookups_world(2)[of c tx cs']
  by simp

theorem lookups_return_stored_record_or_error_witness:
  "fst (getApiKeyById ex_helper ex_world 2 []) = Inr (ex_key 2 ''hook-a'' ''plugin:webhook'' ''7'') \<and>
   fst (GetApiKey ex_helper ex_world [Where_extra ''7'']) = (ex_key 2 ''hook-a'' ''plugin:webhook'' ''7'', None) \<and>
   fst (getApiKeyById ex_helper ex_world 9 []) =
     Inl (Wrap NotFound DalNotFound ''could not find api key id[9] in DB'') \<and>
   fst (GetApiKey ex_helper ex_world [Where_extra ''8'']) = (zero_ApiKey, Some (Unwrapped DalNotFound)) \<and>
   next_fault ex_faulty \<and>
   fst (getApiKeyById ex_helper ex_faulty 2 []) = Inl (Wrap Default DalOther ''error getting api key from DB'') \<and>
   fst (GetApiKey ex_helper ex_faulty [Where_extra ''7'']) = (zero_ApiKey, Some (Unwrapped DalOther)) \<and>
   rows (snd (getApiKeyById ex_helper ex_world 2 [])) = ex_rows \<and>
   rows (snd (GetApiKey ex_helper ex_world [Where_extra ''7''])) = ex_rows"
proof -
  have f: "next_fault ex_faulty" "rows ex_faulty = ex_rows"
    by (simp_all add: ex_faulty_def next_fault_def)
  have n: "\<not> next_fault ex_world" by simp
  have e: "\<And>pre r post. ex_rows = pre @ r # post \<Longrightarrow> matches [Where_extra ''7''] r \<Longrightarrow>
      (\<forall>x \<in> set pre. \<not> matches [Where_extra ''7''] x) \<Longrightarrow> r = ex_key 2 ''hook-a'' ''plugin:webhook'' ''7''"
    by (auto simp: ex_rows_def Where_extra_def Cons_eq_append_conv append_eq_Cons_conv)
  have i: "\<And>pre r post. ex_rows = pre @ r # post \<Longrightarrow> ID r = 2 \<Longrightarrow>
      r = ex_key 2 ''hook-a'' ''plugin:webhook'' ''7''"
    by (auto simp: ex_rows_def Cons_eq_append_conv append_eq_Cons_conv)
  have i9: "\<And>pre r post. ex_rows = pre @ r # post \<Longrightarrow> ID r \<noteq> 9"
    by (auto simp: ex_rows_def Cons_eq_append_conv append_eq_Cons_conv)
  have e8: "\<And>pre r post. ex_rows = pre @ r # post \<Longrightarrow> \<not> matches [Where_extra ''8''] r"
    by (auto simp: ex_rows_def Where_extra_def Cons_eq_append_conv append_eq_Cons_conv)
  have m: "\<exists>r \<in> set ex_rows. ID r = 2" "\<exists>r \<in> set ex_rows. matches [Where_extra ''7''] r"
    "\<forall>r \<in> set ex_rows. ID r \<noteq> 9" "\<forall>r \<in> set ex_rows. \<not> matches [Where_extra ''8''] r"
    by (simp_all add: ex_rows_def Where_extra_def)
  have 1: "fst (getApiKeyById ex_helper ex_world 2 []) = Inr (ex_key 2 ''hook-a'' ''plugin:webhook'' ''7'')"
    and 8: "rows (snd (getApiKeyById ex_helper ex_world 2 [])) = ex_rows"
    using lookups_return_stored_record_or_error[of ex_helper ex_world 2 "[]" "[]"] n m(1) i
    by (auto simp del: ex_key_simps)
  have 2: "fst (GetApiKey ex_helper ex_world [Where_extra ''7'']) = (ex_key 2 ''hook-a'' ''plugin:webhook'' ''7'', None)"
    and 9: "rows (snd (GetApiKey ex_helper ex_world [Where_extra ''7''])) = ex_rows"
    using lookups_return_stored_record_or_error[of ex_helper ex_world 2 "[]" "[Where_extra ''7'']"] n m(2) e
    by (auto simp del: ex_key_simps matches_simps)
  have 3: "fst (getApiKeyById ex_helper ex_world 9 []) =
     Inl (Wrap NotFound DalNotFound ''could not find api key id[9] in DB'')"
    using lookups_return_stored_record_or_error[of ex_helper ex_world 9 "[]" "[]"] n i9
    by (auto simp: fmt_d.simps hexdigit_def)
  have 4: "fst (GetApiKey ex_helper ex_world [Where_extra ''8'']) = (zero_ApiKey, Some (Unwrapped DalNotFound))"
    using lookups_return_stored_record_or_error[of ex_helper ex_world 9 "[]" "[Where_extra ''8'']"] n e8
    by (auto simp del: matches_simps)
  have 5: "fst (getApiKeyById ex_helper ex_faulty 2 []) = Inl (Wrap Default DalOther ''error getting api key from DB'')"
    and 6: "fst (GetApiKey ex_helper ex_faulty [Where_extra ''7'']) = (zero_ApiKey, Some (Unwrapped DalOther))"
    using lookups_return_stored_record_or_error[of ex_helper ex_faulty 2 "[]" "[Where_extra ''7'']"] f(1)
    by auto
  from 1 2 3 4 5 6 8 9 f(1) show ?thesis by blast
qed

text \<open>
  Claim C8. When no stored record has the identifier \<open>i\<close> and the lookup meets no storage
  fault, \<^verbatim>\<open>Delete\<close> fails with the not-found error naming \<open>i\<close>. The world afterwards
  is the one after the single lookup call: the rows are the same and no delete has been
  issued.
\<close>

theorem Delete_absent_not_found:
  assumes "\<not> next_fault db" and "\<forall>r \<in> set (rows db). ID r \<noteq> i"
  shows "Delete c db i =
     (Some (Wrap NotFound DalNotFound (''could not find api key id['' @ fmt_d i @ ''] in DB'')), tick db)
     \<and> rows (snd (Delete c db i)) = rows db"
  using assms by (simp add: Delete_absent)

theorem Delete_absent_not_found_witness:
  "\<not> next_fault ex_world \<and> list_all (\<lambda>r. ID r \<noteq> 9) (rows ex_world) \<and>
   Delete ex_helper ex_world 9 =
     (Some (Wrap NotFound DalNotFound ''could not find api key id[9] in DB''), tick ex_world)
   \<and> rows (snd (Delete ex_helper ex_world 9)) = ex_rows"
  using Delete_absent_not_found[of ex_world 9 ex_helper]
  by (simp add: ex_rows_def fmt_d.simps hexdigit_def)



text \<open>
  Claim C10. With both arguments empty \<^verbatim>\<open>DeleteForPlugin\<close> builds no clause at all, so
  on a store that is not empty (unique identifiers, no storage fault) it deletes the
  first record of the whole table.
\<close>

theorem DeleteForPlugin_no_filters:
  assumes "rows tx = r # rs" and "\<not> next_fault tx" and "\<not> next_fault (tick tx)"
    and "distinct (map ID (rows tx))"
  shows "plugin_clauses [] [] = [] \<and>
         DeleteForPlugin c tx [] [] = (None, (tick (tick tx))\<lparr>rows := rs\<rparr>)"
proof -
  have d: "distinct (map ID ([] @ r # rs))" using assms(1,4) by simp
  have "DeleteForPlugin c tx [] [] = (None, (tick (tick tx))\<lparr>rows := filter (\<lambda>x. ID x \<noteq> ID r) (rows tx)\<rparr>)"
    using DeleteForPlugin_first[OF assms(2,3), of "[]" r rs "[]" "[]" c] assms(1)
    by (simp add: plugin_clauses_def)
  with filter_not_id_distinct[OF d] assms(1) show ?thesis
    by (simp add: plugin_clauses_def)
qed

theorem DeleteForPlugin_no_filters_witness:
  "rows ex_world = ex_key 1 ''ci'' ''user'' [] # [ex_key 2 ''hook-a'' ''plugin:webhook'' ''7'',
              ex_key 3 ''hook-b'' ''plugin:webhook'' ''7''] \<and>
   \<not> next_fault ex_world \<and> \<not> next_fault (tick ex_world) \<and> distinct (map ID (rows ex_world)) \<and>
   DeleteForPlugin ex_helper ex_world [] [] =
     (None, (tick (tick ex_world))\<lparr>rows := [ex_key 2 ''hook-a'' ''plugin:webhook'' ''7'',
              ex_key 3 ''hook-b'' ''plugin:webhook'' ''7'']\<rparr>)"
  using DeleteForPlugin_no_filters[of ex_world "ex_key 1 ''ci'' ''user'' []"
    "[ex_key 2 ''hook-a'' ''plugin:webhook'' ''7'', ex_key 3 ''hook-b'' ''plugin:webhook'' ''7'']" ex_helper]
  by (simp add: ex_rows_def)

end
